theory Spec2Isabelle
  imports Main
begin

section \<open>Values shared by the modules\<close>

text \<open>
  A chain identifier is a TypeScript \<open>string | number\<close>. The numeric identifiers of the
  repository (\<open>SUPPORTED_CHAINS\<close>) are integers. The numbers of the model are the safe
  integers of JavaScript, the integers \<open>n\<close> with \<open>- 2 ^ 53 < n < 2 ^ 53\<close>: these are the
  integers that a number holds exactly and that \<open>Number.prototype.toString\<close> prints as
  their decimal numeral. Fractions, \<open>NaN\<close> and larger magnitudes are outside the type.
\<close>

typedef safe_integer = "{n :: int. - (2 ^ 53) < n \<and> n < 2 ^ 53}"
  morphisms number_value Safe
  by (rule exI [of _ 0]) simp

setup_lifting type_definition_safe_integer

text \<open>The number written as the integer literal \<open>n\<close>, for a literal within the range.\<close>

lift_definition safe :: "int \<Rightarrow> safe_integer" is
  "\<lambda>n. if - (2 ^ 53) < n \<and> n < 2 ^ 53 then n else 0"
  by simp

instantiation safe_integer :: equal
begin

lift_definition equal_safe_integer :: "safe_integer \<Rightarrow> safe_integer \<Rightarrow> bool" is
  "\<lambda>a b :: int. a = b" .

instance
  by standard (transfer, simp)

end

datatype chain_id = ChainNumber safe_integer | ChainString string

text \<open>
  Everything the code throws. The source throws plain \<open>Error\<close> objects that differ by
  their message; each message template is one constructor:
  \<^item> \<open>UnsupportedChainPair\<close>: "Unsupported chain pair: src -> dst" (\<open>createOrder\<close>);
  \<^item> \<open>MissingRequiredField\<close>: "Missing required field: f" (\<open>validateOrderParams\<close>);
  \<^item> \<open>AmountMustBePositive\<close>: "Amount must be positive";
  \<^item> \<open>DeadlineMustBeInFuture\<close>: "Deadline must be in the future";
  \<^item> \<open>BigIntSyntaxError\<close>: the \<open>SyntaxError\<close> of the built-in \<open>BigInt\<close> conversion;
  \<^item> \<open>BigIntTypeError\<close>: the \<open>TypeError\<close> of \<open>BigInt(undefined)\<close>;
  \<^item> \<open>OrderNotFound\<close>: "Order not found: h" (\<open>cancelOrder\<close>);
  \<^item> \<open>NoAdapterForSourceChain\<close>: "No adapter for source chain: c" (\<open>cancelOrder\<close>);
  \<^item> \<open>NoAdapterRegistered\<close>: "No adapter registered for chain ID: c" (\<open>createAdapter\<close>);
  \<^item> \<open>NotAConstructor\<close>: the \<open>TypeError\<close> "AdapterClass is not a constructor" of the
    expression \<open>new AdapterClass()\<close> (\<open>createAdapter\<close>);
  \<^item> \<open>HashLockAssertion\<close>: the \<open>AssertionError\<close> "leaves array must be greater than 2"
    of the SDK's \<open>HashLock.forMultipleFills\<close> (\<open>generateSecretsAndHashLock\<close>);
  \<^item> \<open>Rejected\<close>: the rejection of a call by an external collaborator (Settlement
    Service or chain adapter), passed on by the code that made the call.
\<close>

datatype error =
    UnsupportedChainPair chain_id chain_id
  | MissingRequiredField string
  | AmountMustBePositive
  | DeadlineMustBeInFuture
  | BigIntSyntaxError string
  | BigIntTypeError
  | OrderNotFound string
  | NoAdapterForSourceChain chain_id
  | NoAdapterRegistered string
  | NotAConstructor
  | HashLockAssertion
  | Rejected string

text \<open>
  A value given to \<open>throw\<close>: \<open>retry\<close> throws its variable \<open>lastError\<close>, which is
  still \<open>undefined\<close> when the loop body never ran.
\<close>

datatype 'e thrown = ThrownUndefined | Thrown 'e

section \<open>JavaScript built-ins used by the code\<close>

subsection \<open>Number to string\<close>

definition digit_char :: "int \<Rightarrow> char" where
  "digit_char d = ''0123456789'' ! nat d"

function string_of_digits :: "int \<Rightarrow> string" where
  "string_of_digits n =
     (if n < 10 then [digit_char n] else string_of_digits (n div 10) @ [digit_char (n mod 10)])"
  by pat_completeness auto
termination
  by (relation "measure nat") auto

declare string_of_digits.simps [simp del]

text \<open>
  \<open>Number.prototype.toString()\<close> and \<open>String(n)\<close> on a safe integer: its decimal
  numeral, with a minus sign when it is negative.
\<close>

definition Number_toString :: "safe_integer \<Rightarrow> string" where
  "Number_toString n =
     (if number_value n < 0 then CHR ''-'' # string_of_digits (- number_value n)
      else string_of_digits (number_value n))"

text \<open>\<open>chainId.toString()\<close> on a \<open>string | number\<close>: a string is returned as it is.\<close>

fun chain_toString :: "chain_id \<Rightarrow> string" where
  "chain_toString (ChainNumber n) = Number_toString n"
| "chain_toString (ChainString s) = s"

subsection \<open>String to BigInt\<close>

text \<open>
  \<open>BigInt(s)\<close> on a string follows ECMAScript's StringToBigInt: white space is trimmed
  at both ends, the empty string is \<open>0n\<close>, a decimal numeral may carry a sign, the numerals
  with prefix \<open>0x\<close>, \<open>0o\<close> and \<open>0b\<close> carry none, and anything else (a decimal point, an
  exponent, a letter) is a \<open>SyntaxError\<close>, here \<open>None\<close>. A string is a sequence of 8-bit
  characters, read as the code units U+0000 to U+00FF. Of the white space and line
  terminators of ECMAScript (\<open>StrWhiteSpaceChar\<close>) seven lie in that range: TAB, LF, VT,
  FF, CR, SP and the no-break space U+00A0.
\<close>

definition is_StrWhiteSpaceChar :: "char \<Rightarrow> bool" where
  "is_StrWhiteSpaceChar c =
     (c = CHR 0x09 \<or> c = CHR 0x0A \<or> c = CHR 0x0B \<or> c = CHR 0x0C \<or> c = CHR 0x0D \<or>
      c = CHR 0x20 \<or> c = CHR 0xA0)"

definition trim :: "string \<Rightarrow> string" where
  "trim s = rev (dropWhile is_StrWhiteSpaceChar (rev (dropWhile is_StrWhiteSpaceChar s)))"

definition digit_value :: "char \<Rightarrow> int option" where
  "digit_value c =
     map_of
       [(CHR ''0'', 0), (CHR ''1'', 1), (CHR ''2'', 2), (CHR ''3'', 3), (CHR ''4'', 4),
        (CHR ''5'', 5), (CHR ''6'', 6), (CHR ''7'', 7), (CHR ''8'', 8), (CHR ''9'', 9),
        (CHR ''a'', 10), (CHR ''b'', 11), (CHR ''c'', 12), (CHR ''d'', 13), (CHR ''e'', 14),
        (CHR ''f'', 15), (CHR ''A'', 10), (CHR ''B'', 11), (CHR ''C'', 12), (CHR ''D'', 13),
        (CHR ''E'', 14), (CHR ''F'', 15)] c"

fun digits_value :: "int \<Rightarrow> string \<Rightarrow> int \<Rightarrow> int option" where
  "digits_value radix [] acc = Some acc"
| "digits_value radix (c # cs) acc =
     (case digit_value c of
        None \<Rightarrow> None
      | Some d \<Rightarrow> if d < radix then digits_value radix cs (acc * radix + d) else None)"

definition numeral_value :: "int \<Rightarrow> string \<Rightarrow> int option" where
  "numeral_value radix s = (if s = [] then None else digits_value radix s 0)"

definition signed_decimal :: "string \<Rightarrow> int option" where
  "signed_decimal t =
     (case t of
        [] \<Rightarrow> None
      | c # r \<Rightarrow>
          if c = CHR ''+'' then numeral_value 10 r
          else if c = CHR ''-'' then map_option uminus (numeral_value 10 r)
          else numeral_value 10 t)"

definition BigInt :: "string \<Rightarrow> int option" where
  "BigInt s =
     (let t = trim s in
      if t = [] then Some 0
      else
        (case t of
           c # d # r \<Rightarrow>
             if c = CHR ''0'' \<and> (d = CHR ''x'' \<or> d = CHR ''X'') then numeral_value 16 r
             else if c = CHR ''0'' \<and> (d = CHR ''o'' \<or> d = CHR ''O'') then numeral_value 8 r
             else if c = CHR ''0'' \<and> (d = CHR ''b'' \<or> d = CHR ''B'') then numeral_value 2 r
             else signed_decimal t
         | _ \<Rightarrow> signed_decimal t))"

section \<open>fusionUtils: the data model\<close>

datatype token_standard = ERC20 | FA1_2 | FA2 | APTOS_COIN | SUI_COIN | NATIVE

record UniversalAsset =
  asset_chainId :: chain_id
  asset_address :: string
  asset_symbol :: string
  asset_decimals :: nat
  asset_standard :: token_standard

datatype OrderStatus =
  CREATED | PENDING | PARTIALLY_FILLED | EXECUTED | CANCELLED | EXPIRED | FAILED

record OrderFill =
  fill_idx :: nat
  fill_amount :: string
  fill_txHash :: string
  fill_timestamp :: nat
  fill_resolver :: string

text \<open>
  The hash-lock commitment is built by the external SDK (\<open>HashLock.forSingleFill\<close>,
  \<open>HashLock.forMultipleFills\<close>); the model records which of the two was called and on
  what.
\<close>

datatype hashlock = ForSingleFill string | ForMultipleFills "string list"

record UniversalOrder =
  orderHash :: string
  srcChain :: chain_id
  dstChain :: chain_id
  srcAsset :: UniversalAsset
  dstAsset :: UniversalAsset
  amount :: string
  minReturn :: string
  maker :: string
  taker :: "string option"
  deadline :: int
  status :: OrderStatus
  fills :: "OrderFill list"
  secrets :: "string list option"
  secretHashes :: "string list option"
  hashLock :: "hashlock option"

text \<open>\<open>Partial<UniversalOrder>\<close>: every field may be absent (\<open>None\<close> is \<open>undefined\<close>).\<close>

record PartialOrder =
  p_orderHash :: "string option"
  p_srcChain :: "chain_id option"
  p_dstChain :: "chain_id option"
  p_srcAsset :: "UniversalAsset option"
  p_dstAsset :: "UniversalAsset option"
  p_amount :: "string option"
  p_minReturn :: "string option"
  p_maker :: "string option"
  p_taker :: "string option"
  p_deadline :: "int option"
  p_status :: "OrderStatus option"
  p_fills :: "OrderFill list option"
  p_secrets :: "string list option"
  p_secretHashes :: "string list option"
  p_hashLock :: "hashlock option"

definition partial_of :: "UniversalOrder \<Rightarrow> PartialOrder" where
  "partial_of order =
     \<lparr> p_orderHash = Some (orderHash order),
       p_srcChain = Some (srcChain order),
       p_dstChain = Some (dstChain order),
       p_srcAsset = Some (srcAsset order),
       p_dstAsset = Some (dstAsset order),
       p_amount = Some (amount order),
       p_minReturn = Some (minReturn order),
       p_maker = Some (maker order),
       p_taker = taker order,
       p_deadline = Some (deadline order),
       p_status = Some (status order),
       p_fills = Some (fills order),
       p_secrets = secrets order,
       p_secretHashes = secretHashes order,
       p_hashLock = hashLock order \<rparr>"

section \<open>fusionUtils: validateOrderParams\<close>

text \<open>
  JavaScript truthiness of the values the required fields can hold: \<open>undefined\<close>, the
  empty string and the number 0 are falsy, an object is truthy.
\<close>

fun truthy_chain :: "chain_id \<Rightarrow> bool" where
  "truthy_chain (ChainNumber n) = (number_value n \<noteq> 0)"
| "truthy_chain (ChainString s) = (s \<noteq> [])"

definition truthy_opt :: "('a \<Rightarrow> bool) \<Rightarrow> 'a option \<Rightarrow> bool" where
  "truthy_opt t v = (case v of None \<Rightarrow> False | Some x \<Rightarrow> t x)"

definition required :: "string list" where
  "required = [''srcChain'', ''dstChain'', ''srcAsset'', ''dstAsset'', ''amount'', ''maker'', ''deadline'']"

text \<open>The truthiness of \<open>order[field]\<close> for the names of the list \<open>required\<close>.\<close>

definition truthy_field :: "PartialOrder \<Rightarrow> string \<Rightarrow> bool" where
  "truthy_field order field =
     (if field = ''srcChain'' then truthy_opt truthy_chain (p_srcChain order)
      else if field = ''dstChain'' then truthy_opt truthy_chain (p_dstChain order)
      else if field = ''srcAsset'' then truthy_opt (\<lambda>_. True) (p_srcAsset order)
      else if field = ''dstAsset'' then truthy_opt (\<lambda>_. True) (p_dstAsset order)
      else if field = ''amount'' then truthy_opt (\<lambda>s. s \<noteq> []) (p_amount order)
      else if field = ''maker'' then truthy_opt (\<lambda>s. s \<noteq> []) (p_maker order)
      else if field = ''deadline'' then truthy_opt (\<lambda>d. d \<noteq> 0) (p_deadline order)
      else False)"

text \<open>The loop \<open>for (const field of required)\<close>: the first falsy field throws.\<close>

fun check_required :: "PartialOrder \<Rightarrow> string list \<Rightarrow> error option" where
  "check_required order [] = None"
| "check_required order (field # rest) =
     (if \<not> truthy_field order field then Some (MissingRequiredField field)
      else check_required order rest)"

text \<open>
  \<open>now\<close> is the value of \<open>Math.floor(Date.now() / 1000)\<close> read by the call. The
  comparison \<open>undefined <= n\<close> is false in JavaScript, so an absent deadline would pass the
  last check (the loop over \<open>required\<close> has thrown before).
\<close>

definition validateOrderParams :: "nat \<Rightarrow> PartialOrder \<Rightarrow> error + bool" where
  "validateOrderParams now order =
     (case check_required order required of
        Some e \<Rightarrow> Inl e
      | None \<Rightarrow>
          (case p_amount order of
             None \<Rightarrow> Inl BigIntTypeError
           | Some a \<Rightarrow>
               (case BigInt a of
                  None \<Rightarrow> Inl (BigIntSyntaxError a)
                | Some v \<Rightarrow>
                    if v \<le> 0 then Inl AmountMustBePositive
                    else if (case p_deadline order of None \<Rightarrow> False | Some d \<Rightarrow> d \<le> int now)
                      then Inl DeadlineMustBeInFuture
                    else Inr True)))"

text \<open>
  The failures the specification calls \<open>InvalidOrder\<close>: the three errors that
  \<open>validateOrderParams\<close> constructs itself.
\<close>

fun is_InvalidOrder :: "error \<Rightarrow> bool" where
  "is_InvalidOrder (MissingRequiredField f) = True"
| "is_InvalidOrder AmountMustBePositive = True"
| "is_InvalidOrder DeadlineMustBeInFuture = True"
| "is_InvalidOrder e = False"

section \<open>fusionUtils: retry\<close>

text \<open>
  The operation is an effectful computation on a world \<open>'w\<close>: it returns its outcome
  (\<open>Inl\<close> a rejection, \<open>Inr\<close> a value) and the world after the attempt. \<open>sleep ms\<close> is the
  effect of waiting. The loop variable \<open>i\<close> and \<open>lastError\<close> are those of the source; the
  third component of the result counts the invocations of the operation.
\<close>

function retry_loop ::
  "('w \<Rightarrow> ('e + 'a) \<times> 'w) \<Rightarrow> (nat \<Rightarrow> 'w \<Rightarrow> 'w) \<Rightarrow> nat \<Rightarrow> nat \<Rightarrow>
   nat \<Rightarrow> 'e thrown \<Rightarrow> nat \<Rightarrow> 'w \<Rightarrow> ('e thrown + 'a) \<times> 'w \<times> nat"
where
  "retry_loop operation sleep maxRetries delay i lastError invoked w =
     (if i < maxRetries then
        (case operation w of
           (Inr v, w') \<Rightarrow> (Inr v, w', Suc invoked)
         | (Inl e, w') \<Rightarrow>
             retry_loop operation sleep maxRetries delay (Suc i) (Thrown e) (Suc invoked)
               (if i < maxRetries - 1 then sleep (delay * 2 ^ i) w' else w'))
      else (Inl lastError, w, invoked))"
  by pat_completeness auto
termination
  by (relation "measure (\<lambda>(operation, sleep, maxRetries, delay, i, lastError, invoked, w). maxRetries - i)")
    auto

declare retry_loop.simps [simp del]

definition retry ::
  "('w \<Rightarrow> ('e + 'a) \<times> 'w) \<Rightarrow> (nat \<Rightarrow> 'w \<Rightarrow> 'w) \<Rightarrow> nat \<Rightarrow> nat \<Rightarrow> 'w \<Rightarrow>
   ('e thrown + 'a) \<times> 'w \<times> nat"
where
  "retry operation sleep maxRetries delay w =
     retry_loop operation sleep maxRetries delay 0 ThrownUndefined 0 w"

text \<open>
  The world in which attempt \<open>k\<close> (counted from 0) starts when every earlier attempt
  failed: after a failed attempt \<open>k\<close> that is not the last, the loop sleeps
  \<open>delay * 2 ^ k\<close>.
\<close>

fun attempt_world ::
  "('w \<Rightarrow> ('e + 'a) \<times> 'w) \<Rightarrow> (nat \<Rightarrow> 'w \<Rightarrow> 'w) \<Rightarrow> nat \<Rightarrow> 'w \<Rightarrow> nat \<Rightarrow> 'w"
where
  "attempt_world operation sleep delay w 0 = w"
| "attempt_world operation sleep delay w (Suc k) =
     sleep (delay * 2 ^ k) (snd (operation (attempt_world operation sleep delay w k)))"

section \<open>fusionUtils: generateSecretsAndHashLock\<close>

text \<open>
  The library functions the module calls. \<open>random_byte k j\<close> is byte \<open>j\<close> of the buffer
  that the \<open>k\<close>-th call of \<open>crypto.randomBytes\<close> returns (read modulo 256); \<open>hashSecret\<close>
  is the hash of \<open>HashLock.hashSecret\<close>; \<open>solidityPackedKeccak256 i h\<close> is the ethers
  function on the types \<open>['uint64', 'bytes32']\<close> and the values \<open>[i, h]\<close>.
\<close>

record crypto =
  random_byte :: "nat \<Rightarrow> nat \<Rightarrow> nat"
  hashSecret :: "string \<Rightarrow> string"
  solidityPackedKeccak256 :: "nat \<Rightarrow> string \<Rightarrow> string"

text \<open>The \<open>k\<close>-th call \<open>randomBytes(n)\<close>: a buffer of exactly \<open>n\<close> bytes.\<close>

definition randomBytes :: "crypto \<Rightarrow> nat \<Rightarrow> nat \<Rightarrow> nat list" where
  "randomBytes C k n = map (\<lambda>j. random_byte C k j mod 256) [0 ..< n]"

definition hex_digit :: "nat \<Rightarrow> char" where
  "hex_digit d = ''0123456789abcdef'' ! (d mod 16)"

text \<open>\<open>Buffer.toString('hex')\<close>: two lower-case hexadecimal digits for every byte.\<close>

definition hex_of_bytes :: "nat list \<Rightarrow> string" where
  "hex_of_bytes bs = concat (map (\<lambda>b. [hex_digit (b div 16), hex_digit b]) bs)"

definition getRandomBytes32 :: "crypto \<Rightarrow> nat \<Rightarrow> string" where
  "getRandomBytes32 C k = ''0x'' @ hex_of_bytes (randomBytes C k 32)"

text \<open>
  The form that \<open>HashLock.hashSecret\<close> and \<open>HashLock.forSingleFill\<close> require of a secret:
  32 bytes, hex-encoded after \<open>0x\<close>. The module gives them values of \<open>getRandomBytes32\<close>
  only, which have this form, so their assertion does not fail here.
\<close>

definition is_bytes32_hex :: "string \<Rightarrow> bool" where
  "is_bytes32_hex s =
     (length s = 66 \<and> take 2 s = ''0x'' \<and>
      list_all (\<lambda>c. c \<in> set ''0123456789abcdef'') (drop 2 s))"

text \<open>
  \<open>HashLock.forMultipleFills\<close> asserts that it is given more than two leaves, and throws
  an \<open>AssertionError\<close> otherwise.
\<close>

definition HashLock_forMultipleFills :: "string list \<Rightarrow> error + hashlock" where
  "HashLock_forMultipleFills leaves =
     (if 2 < length leaves then Inr (ForMultipleFills leaves) else Inl HashLockAssertion)"

record generated =
  gen_secrets :: "string list"
  gen_secretHashes :: "string list"
  gen_hashLock :: hashlock

text \<open>
  \<open>drawn\<close> is the number of calls of the random source made so far; the function
  returns it advanced by the calls it made, also when the construction of the
  commitment throws.
\<close>

definition generateSecretsAndHashLock ::
  "crypto \<Rightarrow> nat \<Rightarrow> nat \<Rightarrow> (error + generated) \<times> nat" where
  "generateSecretsAndHashLock C drawn secretsCount =
     (let secrets = map (getRandomBytes32 C) [drawn ..< drawn + secretsCount];
          secretHashes = map (hashSecret C) secrets
      in
        (case
           (if secretsCount = 1 then Inr (ForSingleFill (secrets ! 0))
            else HashLock_forMultipleFills
                   (map (\<lambda>(i, secretHash). solidityPackedKeccak256 C i secretHash)
                      (enumerate 0 secretHashes)))
         of
           Inl e \<Rightarrow> Inl e
         | Inr lock \<Rightarrow>
             Inr \<lparr> gen_secrets = secrets, gen_secretHashes = secretHashes,
                   gen_hashLock = lock \<rparr>,
         drawn + secretsCount))"

section \<open>ChainAdapterFactory: the adapter registry\<close>

text \<open>
  The adapter classes are outside the source files; an adapter object is recorded by the
  class and the arguments of its construction.
\<close>

datatype adapter_class =
    EVMChainAdapter safe_integer string UniversalAsset
  | AptosChainAdapter
  | SuiChainAdapter
  | TezosChainAdapter
  | OtherAdapter string

text \<open>
  A value registered for a chain. \<open>registerAdapter\<close> takes a function
  \<open>() => IChainAdapter\<close> and stores it, through a cast, in a map of constructors
  \<open>new () => IChainAdapter\<close>; \<open>createAdapter\<close> applies \<open>new\<close> to the stored value. What
  \<open>new\<close> does depends on the kind of function:
  \<^item> \<open>ArrowFunction\<close>: an arrow function, as every default registration is
    (\<open>() => new EVMChainAdapter(...)\<close>). An arrow function is no constructor and \<open>new\<close>
    throws a \<open>TypeError\<close>. (The source uses BigInt literals, so it is compiled for
    ES2020 or later and its arrow functions stay arrow functions.)
  \<^item> \<open>Constructible\<close>: a \<open>function\<close> expression or a class that returns or
    constructs an adapter of the given class; \<open>new\<close> yields a newly allocated object.
  An adapter instance is a reference into \<open>reg_heap\<close>, the sequence of the objects
  constructed so far; two instances are the identical object exactly when the references
  are equal.
\<close>

datatype registered = ArrowFunction adapter_class | Constructible adapter_class

type_synonym adapter_ref = nat

record ChainAdapterFactory =
  reg_adapters :: "string \<rightharpoonup> registered"
  reg_instances :: "string \<rightharpoonup> adapter_ref"
  reg_heap :: "adapter_class list"

definition registerAdapter ::
  "ChainAdapterFactory \<Rightarrow> chain_id \<Rightarrow> registered \<Rightarrow> ChainAdapterFactory" where
  "registerAdapter F chainId adapterFactory =
     (let key = chain_toString chainId;
          F1 = F\<lparr>reg_adapters := (reg_adapters F)(key \<mapsto> adapterFactory)\<rparr>
      in if reg_instances F1 key \<noteq> None
         then F1\<lparr>reg_instances := (reg_instances F1)(key := None)\<rparr>
         else F1)"

definition createAdapter ::
  "ChainAdapterFactory \<Rightarrow> chain_id \<Rightarrow> (error + adapter_ref) \<times> ChainAdapterFactory" where
  "createAdapter F chainId =
     (let key = chain_toString chainId in
      case reg_instances F key of
        Some cached \<Rightarrow> (Inr cached, F)
      | None \<Rightarrow>
          (case reg_adapters F key of
             None \<Rightarrow> (Inl (NoAdapterRegistered (chain_toString chainId)), F)
           | Some (ArrowFunction body) \<Rightarrow> (Inl NotAConstructor, F)
           | Some (Constructible AdapterClass) \<Rightarrow>
               (let adapter = length (reg_heap F)
                in (Inr adapter,
                    F\<lparr>reg_heap := reg_heap F @ [AdapterClass],
                      reg_instances := (reg_instances F)(key \<mapsto> adapter)\<rparr>))))"

definition clearCache :: "ChainAdapterFactory \<Rightarrow> ChainAdapterFactory" where
  "clearCache F = F\<lparr>reg_instances := Map.empty\<rparr>"

definition native_asset :: "safe_integer \<Rightarrow> string \<Rightarrow> UniversalAsset" where
  "native_asset n ticker =
     \<lparr> asset_chainId = ChainNumber n,
       asset_address = ''0x0000000000000000000000000000000000000000'',
       asset_symbol = ticker,
       asset_decimals = 18,
       asset_standard = NATIVE \<rparr>"

text \<open>The five default registrations, each an arrow function.\<close>

definition registerDefaultAdapters :: "ChainAdapterFactory \<Rightarrow> ChainAdapterFactory" where
  "registerDefaultAdapters F =
     (let F1 = registerAdapter F (ChainNumber (safe 128123))
                 (ArrowFunction
                    (EVMChainAdapter (safe 128123) ''Etherlink'' (native_asset (safe 128123) ''XTZ'')));
          F2 = registerAdapter F1 (ChainNumber (safe 137))
                 (ArrowFunction
                    (EVMChainAdapter (safe 137) ''Polygon'' (native_asset (safe 137) ''MATIC'')));
          F3 = registerAdapter F2 (ChainString ''aptos-mainnet'') (ArrowFunction AptosChainAdapter);
          F4 = registerAdapter F3 (ChainString ''sui-mainnet'') (ArrowFunction SuiChainAdapter)
      in registerAdapter F4 (ChainString ''tezos-mainnet'') (ArrowFunction TezosChainAdapter))"

text \<open>The constructor: two empty maps, then the default registrations.\<close>

definition new_ChainAdapterFactory :: ChainAdapterFactory where
  "new_ChainAdapterFactory =
     registerDefaultAdapters
       \<lparr> reg_adapters = Map.empty, reg_instances = Map.empty, reg_heap = [] \<rparr>"

text \<open>The registries a program can hold: the constructed one, changed by the public methods.\<close>

inductive reachable :: "ChainAdapterFactory \<Rightarrow> bool" where
  reach_new: "reachable new_ChainAdapterFactory"
| reach_register: "reachable F \<Longrightarrow> reachable (registerAdapter F chainId adapterFactory)"
| reach_create: "reachable F \<Longrightarrow> reachable (snd (createAdapter F chainId))"
| reach_clear: "reachable F \<Longrightarrow> reachable (clearCache F)"

section \<open>fusionOrders: the order manager\<close>

subsection \<open>The external collaborators\<close>

record QuoteParams =
  srcChainId :: chain_id
  dstChainId :: chain_id
  srcTokenAddress :: string
  dstTokenAddress :: string
  quote_amount :: string
  enableEstimate :: "bool option"
  walletAddress :: string

text \<open>The quote of the Settlement Service: \<open>quote.getPreset().secretsCount\<close> and the rest.\<close>

record Quote =
  preset_secretsCount :: nat
  quote_data :: string

text \<open>
  An element of \<open>fillsObject.fills\<close>: the index, and the three properties the code reads
  through \<open>(fill as any)\<close>, each possibly absent.
\<close>

record ReadyFill =
  idx :: nat
  ready_amount :: "string option"
  ready_txHash :: "string option"
  ready_resolver :: "string option"

text \<open>
  Every call that leaves the process, and every wait, is an event; the \<open>history\<close> of a
  manager is the sequence of the events so far.
\<close>

datatype event =
    GetQuote QuoteParams
  | PlaceOrder Quote string hashlock "string list"
  | GetOrderStatus string
  | GetReadyToAcceptSecretFills string
  | SubmitSecret string "string option"
  | AdapterCancelOrder adapter_ref string
  | Sleep nat

text \<open>
  The Settlement Service (the fields \<open>sdk_...\<close>), the chain adapters and the clock are
  outside the repository. A collaborator answers a call from the history of the events
  before it and the arguments of the call, as a test double does: \<open>Inl\<close> is a rejection,
  with its message.
  \<open>clock\<close> is \<open>Math.floor(Date.now() / 1000)\<close>; time is observed to pass only across
  events, so two readings with no event between them are equal.
\<close>

type_synonym rejection = string

record env =
  sdk_getQuote :: "event list \<Rightarrow> QuoteParams \<Rightarrow> rejection + Quote"
  sdk_placeOrder :: "event list \<Rightarrow> Quote \<Rightarrow> string \<Rightarrow> hashlock \<Rightarrow> string list \<Rightarrow> rejection + string"
  sdk_getOrderStatus :: "event list \<Rightarrow> string \<Rightarrow> rejection + string"
  sdk_getReadyToAcceptSecretFills :: "event list \<Rightarrow> string \<Rightarrow> rejection + ReadyFill list"
  sdk_submitSecret :: "event list \<Rightarrow> string \<Rightarrow> string option \<Rightarrow> rejection + unit"
  adapter_cancelOrder :: "event list \<Rightarrow> adapter_ref \<Rightarrow> string \<Rightarrow> rejection + unit"
  clock :: "event list \<Rightarrow> nat"

text \<open>What the caller of a retried call catches: the last rejection, or \<open>undefined\<close>.\<close>

fun rethrow :: "rejection thrown \<Rightarrow> error thrown" where
  "rethrow ThrownUndefined = ThrownUndefined"
| "rethrow (Thrown msg) = Thrown (Rejected msg)"

fun is_sdk_call :: "event \<Rightarrow> bool" where
  "is_sdk_call (AdapterCancelOrder a h) = False"
| "is_sdk_call (Sleep ms) = False"
| "is_sdk_call e = True"

fun is_GetQuote :: "event \<Rightarrow> bool" where
  "is_GetQuote (GetQuote p) = True"
| "is_GetQuote e = False"

fun is_PlaceOrder :: "event \<Rightarrow> bool" where
  "is_PlaceOrder (PlaceOrder q w l hs) = True"
| "is_PlaceOrder e = False"

subsection \<open>The state of a manager\<close>

text \<open>
  The four maps of the class, the history of events, the number of calls of the random
  source (\<open>drawn\<close>), and the interval timers: \<open>liveTimers\<close> maps the identifier of every
  timer that \<open>setInterval\<close> created and \<open>clearInterval\<close> has not cleared to the order hash
  its callback monitors; \<open>timerCount\<close> is the number of timers created so far. A timer
  identifier is truthy.
\<close>

record manager =
  adapters :: "chain_id \<rightharpoonup> adapter_ref"
  activeOrders :: "string \<rightharpoonup> UniversalOrder"
  orderSecrets :: "string \<rightharpoonup> string list"
  pollingIntervals :: "string \<rightharpoonup> nat"
  liveTimers :: "nat \<rightharpoonup> string"
  timerCount :: nat
  history :: "event list"
  drawn :: nat

record FusionOrderConfig =
  pollingInterval :: nat
  maxRetries :: nat

definition emit :: "event \<Rightarrow> manager \<Rightarrow> manager" where
  "emit e m = m\<lparr>history := history m @ [e]\<rparr>"

definition sleep :: "nat \<Rightarrow> manager \<Rightarrow> manager" where
  "sleep ms m = emit (Sleep ms) m"

subsection \<open>getQuote and createOrder\<close>

text \<open>
  The request that \<open>getQuote\<close> sends: \<open>params.enableEstimate || true\<close> is \<open>true\<close>
  whatever the parameter holds. The chain identifiers are sent as they are; their
  conversion by \<open>Number(...)\<close> is left to the collaborator, which answers from the
  arguments.
\<close>

definition quote_request :: "QuoteParams \<Rightarrow> QuoteParams" where
  "quote_request params = params\<lparr>enableEstimate := Some True\<rparr>"

definition call_getQuote :: "env \<Rightarrow> QuoteParams \<Rightarrow> manager \<Rightarrow> (rejection + Quote) \<times> manager" where
  "call_getQuote E params m =
     (sdk_getQuote E (history m) (quote_request params), emit (GetQuote (quote_request params)) m)"

definition getQuote ::
  "FusionOrderConfig \<Rightarrow> env \<Rightarrow> QuoteParams \<Rightarrow> manager \<Rightarrow> (error thrown + Quote) \<times> manager" where
  "getQuote cfg E params m =
     (case retry (call_getQuote E params) sleep (maxRetries cfg) 1000 m of
        (Inl e, m', invoked) \<Rightarrow> (Inl (rethrow e), m')
      | (Inr quote, m', invoked) \<Rightarrow> (Inr quote, m'))"

definition call_placeOrder ::
  "env \<Rightarrow> Quote \<Rightarrow> string \<Rightarrow> hashlock \<Rightarrow> string list \<Rightarrow> manager \<Rightarrow> (rejection + string) \<times> manager" where
  "call_placeOrder E quote wallet lock hashes m =
     (sdk_placeOrder E (history m) quote wallet lock hashes,
      emit (PlaceOrder quote wallet lock hashes) m)"

definition startOrderMonitoring :: "string \<Rightarrow> manager \<Rightarrow> manager" where
  "startOrderMonitoring h m =
     (let intervalId = Suc (timerCount m)
      in m\<lparr>liveTimers := (liveTimers m)(intervalId \<mapsto> h),
           timerCount := intervalId,
           pollingIntervals := (pollingIntervals m)(h \<mapsto> intervalId)\<rparr>)"

definition stopOrderMonitoring :: "string \<Rightarrow> manager \<Rightarrow> manager" where
  "stopOrderMonitoring h m =
     (case pollingIntervals m h of
        None \<Rightarrow> m
      | Some intervalId \<Rightarrow>
          m\<lparr>liveTimers := (liveTimers m)(intervalId := None),
            pollingIntervals := (pollingIntervals m)(h := None)\<rparr>)"

definition token_asset :: "chain_id \<Rightarrow> string \<Rightarrow> string \<Rightarrow> UniversalAsset" where
  "token_asset c a ticker =
     \<lparr> asset_chainId = c, asset_address = a, asset_symbol = ticker,
       asset_decimals = 18, asset_standard = ERC20 \<rparr>"

text \<open>The order object that \<open>createOrder\<close> assembles, \<open>now\<close> being the clock reading.\<close>

definition new_order :: "QuoteParams \<Rightarrow> nat \<Rightarrow> generated \<Rightarrow> UniversalOrder" where
  "new_order params now g =
     \<lparr> orderHash = [],
       srcChain = srcChainId params,
       dstChain = dstChainId params,
       srcAsset = token_asset (srcChainId params) (srcTokenAddress params) ''SRC'',
       dstAsset = token_asset (dstChainId params) (dstTokenAddress params) ''DST'',
       amount = quote_amount params,
       minReturn = ''0'',
       maker = walletAddress params,
       taker = None,
       deadline = int now + 3600,
       status = CREATED,
       fills = [],
       secrets = Some (gen_secrets g),
       secretHashes = Some (gen_secretHashes g),
       hashLock = Some (gen_hashLock g) \<rparr>"

definition createOrder ::
  "FusionOrderConfig \<Rightarrow> crypto \<Rightarrow> env \<Rightarrow> QuoteParams \<Rightarrow> manager \<Rightarrow>
   (error thrown + string) \<times> manager" where
  "createOrder cfg C E params m =
     (case adapters m (srcChainId params) of
        None \<Rightarrow> (Inl (Thrown (UnsupportedChainPair (srcChainId params) (dstChainId params))), m)
      | Some srcAdapter \<Rightarrow>
     (case adapters m (dstChainId params) of
        None \<Rightarrow> (Inl (Thrown (UnsupportedChainPair (srcChainId params) (dstChainId params))), m)
      | Some dstAdapter \<Rightarrow>
     (case getQuote cfg E params m of
        (Inl e, m1) \<Rightarrow> (Inl e, m1)
      | (Inr quote, m1) \<Rightarrow>
     (case generateSecretsAndHashLock C (drawn m1) (preset_secretsCount quote) of
        (Inl e, drawn') \<Rightarrow> (Inl (Thrown e), m1\<lparr>drawn := drawn'\<rparr>)
      | (Inr g, drawn') \<Rightarrow>
     (let m2 = m1\<lparr>drawn := drawn'\<rparr>;
          order = new_order params (clock E (history m2)) g
      in
     (case validateOrderParams (clock E (history m2)) (partial_of order) of
        Inl e \<Rightarrow> (Inl (Thrown e), m2)
      | Inr ok \<Rightarrow>
     (case retry
             (call_placeOrder E quote (walletAddress params) (gen_hashLock g) (gen_secretHashes g))
             sleep (maxRetries cfg) 1000 m2 of
        (Inl e, m3, invoked) \<Rightarrow> (Inl (rethrow e), m3)
      | (Inr placedHash, m3, invoked) \<Rightarrow>
          (Inr placedHash,
           startOrderMonitoring placedHash
             (m3\<lparr>activeOrders :=
                   (activeOrders m3)(placedHash \<mapsto> order\<lparr>orderHash := placedHash, status := PENDING\<rparr>),
                 orderSecrets := (orderSecrets m3)(placedHash \<mapsto> gen_secrets g)\<rparr>)))))))))"

subsection \<open>The monitoring tick\<close>

definition checkOrderStatus :: "env \<Rightarrow> string \<Rightarrow> manager \<Rightarrow> manager" where
  "checkOrderStatus E h m =
     (case activeOrders m h of
        None \<Rightarrow> m
      | Some order \<Rightarrow>
          (let m1 = emit (GetOrderStatus h) m in
           case sdk_getOrderStatus E (history m) h of
             Inl e \<Rightarrow> m1
           | Inr reported \<Rightarrow>
               if reported = ''executed'' then
                 stopOrderMonitoring h
                   (m1\<lparr>activeOrders := (activeOrders m1)(h \<mapsto> order\<lparr>status := EXECUTED\<rparr>)\<rparr>)
               else if reported = ''cancelled'' then
                 stopOrderMonitoring h
                   (m1\<lparr>activeOrders := (activeOrders m1)(h \<mapsto> order\<lparr>status := CANCELLED\<rparr>)\<rparr>)
               else m1))"

text \<open>\<open>secrets[fill.idx]\<close>: \<open>undefined\<close> out of range.\<close>

definition nth_opt :: "'a list \<Rightarrow> nat \<Rightarrow> 'a option" where
  "nth_opt xs i = (if i < length xs then Some (xs ! i) else None)"

text \<open>\<open>v || d\<close> on an optional string: the default replaces \<open>undefined\<close> and the empty string.\<close>

definition or_default :: "string option \<Rightarrow> string \<Rightarrow> string" where
  "or_default v d = (case v of None \<Rightarrow> d | Some s \<Rightarrow> if s = [] then d else s)"

definition fill_record :: "nat \<Rightarrow> ReadyFill \<Rightarrow> OrderFill" where
  "fill_record now fill =
     \<lparr> fill_idx = idx fill,
       fill_amount = or_default (ready_amount fill) ''0'',
       fill_txHash = or_default (ready_txHash fill) [],
       fill_timestamp = now,
       fill_resolver = or_default (ready_resolver fill) [] \<rparr>"

text \<open>
  The body of \<open>for (const fill of fillsObject.fills)\<close>, with its own \<open>try\<close>: a rejected
  submission is logged and the loop goes on with the next fill.
\<close>

definition submitFill :: "env \<Rightarrow> string \<Rightarrow> string list \<Rightarrow> ReadyFill \<Rightarrow> manager \<Rightarrow> manager" where
  "submitFill E h secretList fill m =
     (let m1 = emit (SubmitSecret h (nth_opt secretList (idx fill))) m in
      case sdk_submitSecret E (history m) h (nth_opt secretList (idx fill)) of
        Inl e \<Rightarrow> m1
      | Inr u \<Rightarrow>
          (case activeOrders m1 h of
             None \<Rightarrow> m1
           | Some order \<Rightarrow>
               m1\<lparr>activeOrders :=
                    (activeOrders m1)
                      (h \<mapsto> order\<lparr>fills := fills order @ [fill_record (clock E (history m1)) fill]\<rparr>)\<rparr>))"

fun submitFills :: "env \<Rightarrow> string \<Rightarrow> string list \<Rightarrow> ReadyFill list \<Rightarrow> manager \<Rightarrow> manager" where
  "submitFills E h secretList [] m = m"
| "submitFills E h secretList (fill # rest) m =
     submitFills E h secretList rest (submitFill E h secretList fill m)"

definition processOrderFills :: "env \<Rightarrow> string \<Rightarrow> manager \<Rightarrow> manager" where
  "processOrderFills E h m =
     (case orderSecrets m h of
        None \<Rightarrow> m
      | Some secretList \<Rightarrow>
          (let m1 = emit (GetReadyToAcceptSecretFills h) m in
           case sdk_getReadyToAcceptSecretFills E (history m) h of
             Inl e \<Rightarrow> m1
           | Inr ready \<Rightarrow>
               if length ready > 0 then submitFills E h secretList ready m1 else m1))"

text \<open>The callback that \<open>startOrderMonitoring\<close> gives to \<open>setInterval\<close>: one tick.\<close>

definition monitoringTick :: "env \<Rightarrow> string \<Rightarrow> manager \<Rightarrow> manager" where
  "monitoringTick E h m = processOrderFills E h (checkOrderStatus E h m)"

fun monitoringTicks :: "env \<Rightarrow> string \<Rightarrow> nat \<Rightarrow> manager \<Rightarrow> manager" where
  "monitoringTicks E h 0 m = m"
| "monitoringTicks E h (Suc n) m = monitoringTicks E h n (monitoringTick E h m)"

subsection \<open>cancelOrder\<close>

definition cancelOrder :: "env \<Rightarrow> string \<Rightarrow> manager \<Rightarrow> (error + unit) \<times> manager" where
  "cancelOrder E h m =
     (case activeOrders m h of
        None \<Rightarrow> (Inl (OrderNotFound h), m)
      | Some order \<Rightarrow>
          (case adapters m (srcChain order) of
             None \<Rightarrow> (Inl (NoAdapterForSourceChain (srcChain order)), m)
           | Some srcAdapter \<Rightarrow>
               (let m1 = emit (AdapterCancelOrder srcAdapter h) m in
                case adapter_cancelOrder E (history m) srcAdapter h of
                  Inl e \<Rightarrow> (Inl (Rejected e), m1)
                | Inr u \<Rightarrow>
                    (Inr (),
                     stopOrderMonitoring h
                       (m1\<lparr>activeOrders := (activeOrders m1)(h \<mapsto> order\<lparr>status := CANCELLED\<rparr>)\<rparr>)))))"

section \<open>Notions used to state the properties\<close>

subsection \<open>validateOrderParams\<close>

text \<open>
  The three conditions as the specification words them: a required field is missing
  (absent from the object), the amount is an integer that is not positive, the deadline is
  not strictly after the current time.
\<close>

definition required_field_missing :: "PartialOrder \<Rightarrow> bool" where
  "required_field_missing order =
     (p_srcChain order = None \<or> p_dstChain order = None \<or> p_srcAsset order = None \<or>
      p_dstAsset order = None \<or> p_amount order = None \<or> p_maker order = None \<or>
      p_deadline order = None)"

definition amount_non_positive :: "PartialOrder \<Rightarrow> bool" where
  "amount_non_positive order =
     (case p_amount order of
        None \<Rightarrow> False
      | Some a \<Rightarrow> (case BigInt a of None \<Rightarrow> False | Some v \<Rightarrow> v \<le> 0))"

definition deadline_not_in_future :: "nat \<Rightarrow> PartialOrder \<Rightarrow> bool" where
  "deadline_not_in_future now order =
     (case p_deadline order of None \<Rightarrow> False | Some d \<Rightarrow> d \<le> int now)"

text \<open>
  The two further conditions under which the code throws: a required field is present
  and falsy (an empty string, the number 0), and the amount is no integer literal.
\<close>

definition required_field_falsy :: "PartialOrder \<Rightarrow> bool" where
  "required_field_falsy order =
     (p_srcChain order = Some (ChainNumber (safe 0)) \<or> p_srcChain order = Some (ChainString []) \<or>
      p_dstChain order = Some (ChainNumber (safe 0)) \<or> p_dstChain order = Some (ChainString []) \<or>
      p_amount order = Some [] \<or> p_maker order = Some [] \<or> p_deadline order = Some 0)"

definition amount_not_integer :: "PartialOrder \<Rightarrow> bool" where
  "amount_not_integer order =
     (case p_amount order of None \<Rightarrow> False | Some a \<Rightarrow> BigInt a = None)"

subsection \<open>The registry\<close>

text \<open>Every cached instance was constructed by the registry, for a registered chain.\<close>

definition registry_ok :: "ChainAdapterFactory \<Rightarrow> bool" where
  "registry_ok F =
     (\<forall>key a. reg_instances F key = Some a \<longrightarrow>
        a < length (reg_heap F) \<and> reg_adapters F key \<noteq> None)"

subsection \<open>The monitoring tick\<close>

text \<open>The indices of the Fill records of an order, in the order of recording.\<close>

definition fill_indices :: "manager \<Rightarrow> string \<Rightarrow> nat list" where
  "fill_indices m h =
     (case activeOrders m h of None \<Rightarrow> [] | Some order \<Rightarrow> map fill_idx (fills order))"

text \<open>The indices that the fill-readiness query reports when asked after the history \<open>hist\<close>.\<close>

definition ready_indices :: "env \<Rightarrow> string \<Rightarrow> event list \<Rightarrow> nat list" where
  "ready_indices E h hist =
     (case sdk_getReadyToAcceptSecretFills E hist h of
        Inl e \<Rightarrow> []
      | Inr ready \<Rightarrow> map idx ready)"

text \<open>
  The records that the loop of \<open>processOrderFills\<close> appends for the list \<open>ready\<close> when it
  starts after the history \<open>hist\<close>: one for every fill whose submission is accepted.
\<close>

fun appended_fills ::
  "env \<Rightarrow> string \<Rightarrow> string list \<Rightarrow> ReadyFill list \<Rightarrow> event list \<Rightarrow> OrderFill list" where
  "appended_fills E h secretList [] hist = []"
| "appended_fills E h secretList (fill # rest) hist =
     (case sdk_submitSecret E hist h (nth_opt secretList (idx fill)) of
        Inl e \<Rightarrow> []
      | Inr u \<Rightarrow>
          [fill_record (clock E (hist @ [SubmitSecret h (nth_opt secretList (idx fill))])) fill])
     @ appended_fills E h secretList rest (hist @ [SubmitSecret h (nth_opt secretList (idx fill))])"

definition is_terminal :: "OrderStatus \<Rightarrow> bool" where
  "is_terminal s = (s = EXECUTED \<or> s = CANCELLED)"

text \<open>The status that the status check leaves, from the status \<open>s\<close> before it.\<close>

definition status_after_check :: "env \<Rightarrow> string \<Rightarrow> event list \<Rightarrow> OrderStatus \<Rightarrow> OrderStatus" where
  "status_after_check E h hist s =
     (case sdk_getOrderStatus E hist h of
        Inl e \<Rightarrow> s
      | Inr reported \<Rightarrow>
          if reported = ''executed'' then EXECUTED
          else if reported = ''cancelled'' then CANCELLED
          else s)"

text \<open>
  \<open>quiet m m'\<close>: the manager \<open>m'\<close> is \<open>m\<close> with more events in its history, none of them
  an order placement.
\<close>

definition quiet :: "manager \<Rightarrow> manager \<Rightarrow> bool" where
  "quiet m m' =
     (\<exists>evs. m' = m\<lparr>history := history m @ evs\<rparr> \<and> list_all (\<lambda>e. \<not> is_PlaceOrder e) evs)"

section \<open>Sample data\<close>

text \<open>Two operations for \<open>retry\<close> on a world that counts the attempts, and a wait without effect.\<close>

definition fails_twice :: "nat \<Rightarrow> (string + string) \<times> nat" where
  "fails_twice w = (if w < 2 then Inl ''timeout'' else Inr ''quote'', Suc w)"

definition always_fails :: "nat \<Rightarrow> (nat + string) \<times> nat" where
  "always_fails w = (Inl w, Suc w)"

definition no_wait :: "nat \<Rightarrow> nat \<Rightarrow> nat" where
  "no_wait ms w = w"

definition sample_crypto :: crypto where
  "sample_crypto =
     \<lparr> random_byte = (\<lambda>k j. k + j),
       hashSecret = (\<lambda>s. ''H('' @ s @ '')''),
       solidityPackedKeccak256 = (\<lambda>i h. ''K('' @ string_of_digits (int i) @ '','' @ h @ '')'') \<rparr>"

definition sample_partial :: "string \<Rightarrow> string \<Rightarrow> int \<Rightarrow> PartialOrder" where
  "sample_partial a w d =
     \<lparr> p_orderHash = None,
       p_srcChain = Some (ChainNumber (safe 42161)),
       p_dstChain = Some (ChainNumber (safe 8453)),
       p_srcAsset = Some (token_asset (ChainNumber (safe 42161)) ''0xaf88'' ''SRC''),
       p_dstAsset = Some (token_asset (ChainNumber (safe 8453)) ''0x8335'' ''DST''),
       p_amount = Some a,
       p_minReturn = None,
       p_maker = Some w,
       p_taker = None,
       p_deadline = Some d,
       p_status = None,
       p_fills = None,
       p_secrets = None,
       p_secretHashes = None,
       p_hashLock = None \<rparr>"

text \<open>
  A Settlement Service double: it quotes one secret, places every order under the hash
  \<open>0xorder\<close>, reports the status \<open>reported\<close> to every status query and the fills \<open>ready\<close> to
  every readiness query, and accepts every secret. The chain adapters answer a
  cancellation with \<open>cancelling\<close>.
\<close>

definition service :: "string \<Rightarrow> ReadyFill list \<Rightarrow> (rejection + unit) \<Rightarrow> env" where
  "service reported ready cancelling =
     \<lparr> sdk_getQuote = (\<lambda>hist params. Inr \<lparr> preset_secretsCount = 1, quote_data = ''q'' \<rparr>),
       sdk_placeOrder = (\<lambda>hist quote wallet lock hashes. Inr ''0xorder''),
       sdk_getOrderStatus = (\<lambda>hist h. Inr reported),
       sdk_getReadyToAcceptSecretFills = (\<lambda>hist h. Inr ready),
       sdk_submitSecret = (\<lambda>hist h secret. Inr ()),
       adapter_cancelOrder = (\<lambda>hist a h. cancelling),
       clock = (\<lambda>hist. 1000 + length hist) \<rparr>"

text \<open>The same double, quoting \<open>n\<close> secrets.\<close>

definition service_quoting :: "nat \<Rightarrow> env" where
  "service_quoting n =
     (service ''pending'' [] (Inr ()))
       \<lparr> sdk_getQuote := (\<lambda>hist params. Inr \<lparr> preset_secretsCount = n, quote_data = ''q'' \<rparr>) \<rparr>"

definition fill_zero :: ReadyFill where
  "fill_zero =
     \<lparr> idx = 0, ready_amount = Some ''500'', ready_txHash = Some ''0xabc'',
       ready_resolver = Some ''R1'' \<rparr>"

definition sample_config :: FusionOrderConfig where
  "sample_config = \<lparr> pollingInterval = 5000, maxRetries = 3 \<rparr>"

definition sample_params :: "string \<Rightarrow> QuoteParams" where
  "sample_params a =
     \<lparr> srcChainId = ChainNumber (safe 42161),
       dstChainId = ChainNumber (safe 8453),
       srcTokenAddress = ''0xaf88'',
       dstTokenAddress = ''0x8335'',
       quote_amount = a,
       enableEstimate = None,
       walletAddress = ''0xMaker'' \<rparr>"

text \<open>A manager connected to two chains, with no order.\<close>

definition fresh_manager :: manager where
  "fresh_manager =
     \<lparr> adapters = [ChainNumber (safe 42161) \<mapsto> 0, ChainNumber (safe 8453) \<mapsto> 1],
       activeOrders = Map.empty,
       orderSecrets = Map.empty,
       pollingIntervals = Map.empty,
       liveTimers = Map.empty,
       timerCount = 0,
       history = [],
       drawn = 0 \<rparr>"

text \<open>The order that \<open>createOrder\<close> stores for \<open>sample_params\<close>, with a given status.\<close>

definition sample_order :: "OrderStatus \<Rightarrow> UniversalOrder" where
  "sample_order s =
     (new_order (sample_params ''1000000'') 1000
        \<lparr> gen_secrets = [''0xs0''], gen_secretHashes = [''H(0xs0)''],
          gen_hashLock = ForSingleFill ''0xs0'' \<rparr>)
     \<lparr> orderHash := ''0xorder'', status := s \<rparr>"

text \<open>A manager that holds this order and its secret; \<open>monitored\<close> also runs its timer.\<close>

definition holding :: "OrderStatus \<Rightarrow> manager" where
  "holding s =
     fresh_manager
       \<lparr> activeOrders := [''0xorder'' \<mapsto> sample_order s],
         orderSecrets := [''0xorder'' \<mapsto> [''0xs0'']] \<rparr>"

definition monitored :: "OrderStatus \<Rightarrow> manager" where
  "monitored s = startOrderMonitoring ''0xorder'' (holding s)"

section \<open>Properties of retry\<close>

lemma retry_loop_all_fail:
  assumes "\<forall>k. i \<le> k \<and> k < retries \<longrightarrow>
      isl (fst (operation (attempt_world operation pause delay w0 k)))"
    and "i < retries"
  shows "retry_loop operation pause retries delay i lastError i
           (attempt_world operation pause delay w0 i) =
         (Inl (Thrown (projl (fst (operation (attempt_world operation pause delay w0 (retries - 1)))))),
          snd (operation (attempt_world operation pause delay w0 (retries - 1))),
          retries)"
  using assms
proof (induction "retries - i" arbitrary: i lastError)
  case 0
  then show ?case by simp
next
  case (Suc d)
  let ?w = "attempt_world operation pause delay w0 i"
  from Suc.prems have fail_i: "isl (fst (operation ?w))" by simp
  then obtain e w' where op_i: "operation ?w = (Inl e, w')"
    by (cases "operation ?w"; cases "fst (operation ?w)") auto
  show ?case
  proof (cases "Suc i < retries")
    case True
    have d: "d = retries - Suc i" using Suc.hyps(2) by simp
    have rest: "\<forall>k. Suc i \<le> k \<and> k < retries \<longrightarrow>
        isl (fst (operation (attempt_world operation pause delay w0 k)))"
      using Suc.prems(1) by simp
    have next_w: "attempt_world operation pause delay w0 (Suc i) = pause (delay * 2 ^ i) w'"
      by (simp add: op_i)
    from True have lt: "i < retries - 1" by simp
    show ?thesis
      using Suc.hyps(1) [OF d rest True, of "Thrown e"] Suc.prems(2) lt
      by (subst retry_loop.simps) (simp add: op_i next_w)
  next
    case False
    with Suc.prems(2) have last: "retries - 1 = i" and nxt: "Suc i = retries"
      by simp_all
    have stop: "retry_loop operation pause retries delay retries (Thrown e) retries w' =
        (Inl (Thrown e), w', retries)"
      by (subst retry_loop.simps) simp
    have "retry_loop operation pause retries delay i lastError i ?w =
        retry_loop operation pause retries delay (Suc i) (Thrown e) (Suc i) w'"
      using Suc.prems(2) last by (subst retry_loop.simps) (simp add: op_i)
    moreover have "operation (attempt_world operation pause delay w0 (retries - 1)) = (Inl e, w')"
      using last op_i by simp
    ultimately show ?thesis
      by (simp add: nxt stop)
  qed
qed

text \<open>
  Claim C4. For every operation: if it fails on its first two attempts and succeeds on
  the third, \<open>retry\<close> with \<open>maxRetries = 3\<close> returns the value of the third attempt (after three
  invocations); and for every \<open>maxRetries \<ge> 1\<close>, if the operation fails on every attempt,
  \<open>retry\<close> invokes it exactly \<open>maxRetries\<close> times and throws the error of the last attempt.
\<close>

theorem retry_policy:
  fixes operation :: "'w \<Rightarrow> ('e + 'a) \<times> 'w"
  shows
  "(operation w0 = (Inl e1, w1) \<and>
    operation (pause delay w1) = (Inl e2, w2) \<and>
    operation (pause (delay * 2) w2) = (Inr v, w3)
      \<longrightarrow> retry operation pause 3 delay w0 = (Inr v, w3, 3))
   \<and>
   (1 \<le> retries \<and>
    (\<forall>k < retries. isl (fst (operation (attempt_world operation pause delay w0 k))))
      \<longrightarrow> retry operation pause retries delay w0 =
            (Inl (Thrown (projl (fst (operation (attempt_world operation pause delay w0 (retries - 1)))))),
             snd (operation (attempt_world operation pause delay w0 (retries - 1))),
             retries))"
proof (intro conjI impI)
  assume h: "operation w0 = (Inl e1, w1) \<and>
    operation (pause delay w1) = (Inl e2, w2) \<and>
    operation (pause (delay * 2) w2) = (Inr v, w3)"
  show "retry operation pause 3 delay w0 = (Inr v, w3, 3)"
    unfolding retry_def
    apply (subst retry_loop.simps, simp add: h)
    apply (subst retry_loop.simps, simp add: h)
    apply (subst retry_loop.simps, simp add: h)
    done
next
  assume h: "1 \<le> retries \<and>
    (\<forall>k < retries. isl (fst (operation (attempt_world operation pause delay w0 k))))"
  then have a: "\<forall>k. 0 \<le> k \<and> k < retries \<longrightarrow>
      isl (fst (operation (attempt_world operation pause delay w0 k)))" by simp
  from h have b: "0 < retries" by simp
  show "retry operation pause retries delay w0 =
            (Inl (Thrown (projl (fst (operation (attempt_world operation pause delay w0 (retries - 1)))))),
             snd (operation (attempt_world operation pause delay w0 (retries - 1))),
             retries)"
    unfolding retry_def
    using retry_loop_all_fail [OF a b, of ThrownUndefined] by simp
qed

text \<open>
  On a world that counts the attempts: the operation that fails twice returns its value at
  the third attempt, and the operation that always fails is invoked three times and the
  error thrown is that of the third attempt (the attempt that starts in world 2).
\<close>

theorem retry_policy_witness:
  "retry fails_twice no_wait 3 1000 0 = (Inr ''quote'', 3, 3)
   \<and> retry always_fails no_wait 3 1000 0 = (Inl (Thrown 2), 3, 3)"
proof -
  have "fails_twice 0 = (Inl ''timeout'', 1) \<and>
      fails_twice (no_wait 1000 1) = (Inl ''timeout'', 2) \<and>
      fails_twice (no_wait (1000 * 2) 2) = (Inr ''quote'', 3)"
    by (simp add: fails_twice_def no_wait_def)
  then have first: "retry fails_twice no_wait 3 1000 0 = (Inr ''quote'', 3, 3)"
    using retry_policy [of fails_twice 0 "''timeout''" 1 no_wait 1000 "''timeout''" 2 "''quote''" 3]
    by blast
  have worlds: "attempt_world always_fails no_wait 1000 0 (Suc (Suc 0)) = 2"
    by (simp add: always_fails_def no_wait_def)
  have "(1::nat) \<le> 3 \<and>
      (\<forall>k < 3. isl (fst (always_fails (attempt_world always_fails no_wait 1000 0 k))))"
    by (simp add: always_fails_def)
  then have "retry always_fails no_wait 3 1000 0 =
      (Inl (Thrown (projl (fst (always_fails (attempt_world always_fails no_wait 1000 0 (3 - 1)))))),
       snd (always_fails (attempt_world always_fails no_wait 1000 0 (3 - 1))),
       3)"
    using retry_policy [of always_fails 0 _ _ no_wait 1000 _ _ _ _ 3] by blast
  moreover have "(3::nat) - 1 = Suc (Suc 0)" by simp
  ultimately have second: "retry always_fails no_wait 3 1000 0 = (Inl (Thrown 2), 3, 3)"
    by (simp only: worlds) (simp add: always_fails_def)
  from first second show ?thesis by simp
qed

section \<open>Properties of validateOrderParams\<close>

lemma check_required_None_iff:
  "check_required order fs = None \<longleftrightarrow> list_all (truthy_field order) fs"
  by (induction fs) auto

lemma number_value_safe_zero: "number_value (safe 0) = 0"
  by (simp add: safe.rep_eq)

lemma number_value_zero_iff: "number_value n = 0 \<longleftrightarrow> n = safe 0"
  using number_value_inject [of n "safe 0"] by (simp add: number_value_safe_zero)

lemma sample_chain_numbers:
  "number_value (safe 42161) = 42161" "number_value (safe 8453) = 8453"
  by (simp_all add: safe.rep_eq)

lemma sample_chains_not_zero: "safe 42161 \<noteq> safe 0" "safe 8453 \<noteq> safe 0"
  using number_value_zero_iff [of "safe 42161"] number_value_zero_iff [of "safe 8453"]
  by (simp_all add: sample_chain_numbers)

lemma sample_chains_distinct: "safe 42161 \<noteq> safe 8453" "safe 8453 \<noteq> safe 42161"
  using number_value_inject [of "safe 42161" "safe 8453"] number_value_inject [of "safe 8453" "safe 42161"]
  by (simp_all add: sample_chain_numbers)

lemma truthy_chain_iff:
  "truthy_chain c \<longleftrightarrow> c \<noteq> ChainNumber (safe 0) \<and> c \<noteq> ChainString []"
  by (cases c) (auto simp: number_value_zero_iff)

lemma truthy_field_simps:
  "truthy_field order ''srcChain'' = truthy_opt truthy_chain (p_srcChain order)"
  "truthy_field order ''dstChain'' = truthy_opt truthy_chain (p_dstChain order)"
  "truthy_field order ''srcAsset'' = truthy_opt (\<lambda>_. True) (p_srcAsset order)"
  "truthy_field order ''dstAsset'' = truthy_opt (\<lambda>_. True) (p_dstAsset order)"
  "truthy_field order ''amount'' = truthy_opt (\<lambda>s. s \<noteq> []) (p_amount order)"
  "truthy_field order ''maker'' = truthy_opt (\<lambda>s. s \<noteq> []) (p_maker order)"
  "truthy_field order ''deadline'' = truthy_opt (\<lambda>d. d \<noteq> 0) (p_deadline order)"
  by (simp_all add: truthy_field_def)

lemma truthy_opt_chain_iff:
  "truthy_opt truthy_chain v \<longleftrightarrow>
     v \<noteq> None \<and> v \<noteq> Some (ChainNumber (safe 0)) \<and> v \<noteq> Some (ChainString [])"
  by (cases v) (auto simp: truthy_opt_def truthy_chain_iff)

lemma truthy_opt_present_iff: "truthy_opt (\<lambda>_. True) v \<longleftrightarrow> v \<noteq> None"
  by (cases v) (auto simp: truthy_opt_def)

lemma truthy_opt_string_iff: "truthy_opt (\<lambda>s. s \<noteq> []) v \<longleftrightarrow> v \<noteq> None \<and> v \<noteq> Some []"
  by (cases v) (auto simp: truthy_opt_def)

lemma truthy_opt_number_iff: "truthy_opt (\<lambda>d. d \<noteq> (0::int)) v \<longleftrightarrow> v \<noteq> None \<and> v \<noteq> Some 0"
  by (cases v) (auto simp: truthy_opt_def)

lemma required_truthy_iff:
  "list_all (truthy_field order) required \<longleftrightarrow>
     \<not> required_field_missing order \<and> \<not> required_field_falsy order"
  unfolding required_def required_field_missing_def required_field_falsy_def
  by (simp add: truthy_field_simps truthy_opt_chain_iff truthy_opt_present_iff
      truthy_opt_string_iff truthy_opt_number_iff) blast

lemma validateOrderParams_missing:
  assumes "check_required order required = Some e"
  shows "validateOrderParams now order = Inl e"
  using assms by (simp add: validateOrderParams_def)

lemma validateOrderParams_checked:
  assumes "check_required order required = None"
    and "p_amount order = Some a" and "p_deadline order = Some d"
  shows "validateOrderParams now order =
     (case BigInt a of
        None \<Rightarrow> Inl (BigIntSyntaxError a)
      | Some v \<Rightarrow>
          if v \<le> 0 then Inl AmountMustBePositive
          else if d \<le> int now then Inl DeadlineMustBeInFuture
          else Inr True)"
  using assms by (simp add: validateOrderParams_def)

lemma BigInt_decimal_point: "BigInt ''1.5'' = None"
  by code_simp

lemma BigInt_one_million: "BigInt ''1000000'' = Some 1000000"
  by code_simp

lemma BigInt_zero: "BigInt ''0'' = Some 0"
  by code_simp

lemma BigInt_no_break_space: "BigInt (CHR 0xA0 # ''42'') = Some 42"
  by code_simp

lemma sample_partial_required:
  "w \<noteq> [] \<Longrightarrow> a \<noteq> [] \<Longrightarrow> d \<noteq> 0 \<Longrightarrow> check_required (sample_partial a w d) required = None"
  by (simp add: required_def truthy_field_simps truthy_opt_def sample_partial_def
      sample_chain_numbers)

text \<open>
  Claim C9, as stated, fails: \<open>validateOrderParams\<close> also raises when no required field is
  missing, the amount is not non-positive and the deadline is in the future. The amount
  \<open>"1.5"\<close> makes \<open>BigInt\<close> throw a \<open>SyntaxError\<close>.
\<close>

theorem validateOrderParams_decimal_amount_counterexample:
  "validateOrderParams 1700000000 (sample_partial ''1.5'' ''0xMaker'' 1700003600)
     = Inl (BigIntSyntaxError ''1.5'')
   \<and> \<not> required_field_missing (sample_partial ''1.5'' ''0xMaker'' 1700003600)
   \<and> \<not> amount_non_positive (sample_partial ''1.5'' ''0xMaker'' 1700003600)
   \<and> \<not> deadline_not_in_future 1700000000 (sample_partial ''1.5'' ''0xMaker'' 1700003600)"
proof -
  have "check_required (sample_partial ''1.5'' ''0xMaker'' 1700003600) required = None"
    by (rule sample_partial_required) simp_all
  then have "validateOrderParams 1700000000 (sample_partial ''1.5'' ''0xMaker'' 1700003600)
     = Inl (BigIntSyntaxError ''1.5'')"
    by (simp add: validateOrderParams_def sample_partial_def BigInt_decimal_point)
  moreover have "\<not> required_field_missing (sample_partial ''1.5'' ''0xMaker'' 1700003600)"
    by (simp add: required_field_missing_def sample_partial_def)
  moreover have "\<not> amount_non_positive (sample_partial ''1.5'' ''0xMaker'' 1700003600)"
    by (simp add: amount_non_positive_def sample_partial_def BigInt_decimal_point)
  moreover have "\<not> deadline_not_in_future 1700000000 (sample_partial ''1.5'' ''0xMaker'' 1700003600)"
    by (simp add: deadline_not_in_future_def sample_partial_def)
  ultimately show ?thesis by simp
qed

text \<open>
  Claim C9, amended. \<open>validateOrderParams\<close> raises an error if and only if some required
  field is missing or falsy (an empty string, the number 0), or the amount is no integer
  literal that \<open>BigInt\<close> accepts, or the amount is not positive, or the deadline is not
  strictly after the current time; otherwise it returns \<open>true\<close>.
\<close>

theorem validateOrderParams_raises_iff:
  "((\<exists>e. validateOrderParams now order = Inl e) \<longleftrightarrow>
      required_field_missing order \<or> required_field_falsy order \<or> amount_not_integer order \<or>
      amount_non_positive order \<or> deadline_not_in_future now order)
   \<and> (validateOrderParams now order = Inr True \<or> (\<exists>e. validateOrderParams now order = Inl e))"
proof (cases "check_required order required")
  case None
  then have "list_all (truthy_field order) required"
    by (simp add: check_required_None_iff)
  then have ok: "\<not> required_field_missing order" "\<not> required_field_falsy order"
    using required_truthy_iff by blast+
  from ok(1) obtain a d where ad: "p_amount order = Some a" "p_deadline order = Some d"
    by (auto simp: required_field_missing_def)
  note v = validateOrderParams_checked [OF None ad, of now]
  show ?thesis
  proof (cases "BigInt a")
    case None
    then show ?thesis
      using v ad by (simp add: amount_not_integer_def)
  next
    case (Some n)
    then show ?thesis
      using v ad ok
      by (simp add: amount_not_integer_def amount_non_positive_def deadline_not_in_future_def)
  qed
next
  case (Some e)
  then have "\<not> list_all (truthy_field order) required"
    using check_required_None_iff [of order required] by simp
  then have "required_field_missing order \<or> required_field_falsy order"
    using required_truthy_iff by blast
  then show ?thesis
    using validateOrderParams_missing [OF Some, of now] by auto
qed

text \<open>
  A valid order passes, also with a no-break space before the amount; a zero amount, an
  empty maker and a deadline equal to the current time each raise.
\<close>

theorem validateOrderParams_raises_iff_witness:
  "validateOrderParams 1700000000 (sample_partial ''1000000'' ''0xMaker'' 1700003600) = Inr True
   \<and> validateOrderParams 1700000000 (sample_partial (CHR 0xA0 # ''42'') ''0xMaker'' 1700003600)
       = Inr True
   \<and> (\<exists>e. validateOrderParams 1700000000 (sample_partial ''0'' ''0xMaker'' 1700003600) = Inl e)
   \<and> (\<exists>e. validateOrderParams 1700000000 (sample_partial ''1000000'' [] 1700003600) = Inl e)
   \<and> (\<exists>e. validateOrderParams 1700000000 (sample_partial ''1000000'' ''0xMaker'' 1700000000) = Inl e)"
proof -
  let ?good = "sample_partial ''1000000'' ''0xMaker'' 1700003600"
  have "\<not> required_field_missing ?good" "\<not> required_field_falsy ?good"
    "\<not> amount_not_integer ?good" "\<not> amount_non_positive ?good"
    "\<not> deadline_not_in_future 1700000000 ?good"
    by (simp_all add: sample_partial_def required_field_missing_def required_field_falsy_def
        amount_not_integer_def amount_non_positive_def deadline_not_in_future_def
        BigInt_one_million sample_chains_not_zero)
  then have 1: "validateOrderParams 1700000000 ?good = Inr True"
    using validateOrderParams_raises_iff [of 1700000000 ?good] by blast
  let ?padded = "sample_partial (CHR 0xA0 # ''42'') ''0xMaker'' 1700003600"
  have "\<not> required_field_missing ?padded" "\<not> required_field_falsy ?padded"
    "\<not> amount_not_integer ?padded" "\<not> amount_non_positive ?padded"
    "\<not> deadline_not_in_future 1700000000 ?padded"
    by (simp_all add: sample_partial_def required_field_missing_def required_field_falsy_def
        amount_not_integer_def amount_non_positive_def deadline_not_in_future_def
        BigInt_no_break_space sample_chains_not_zero)
  then have 5: "validateOrderParams 1700000000 ?padded = Inr True"
    using validateOrderParams_raises_iff [of 1700000000 ?padded] by blast
  have "amount_non_positive (sample_partial ''0'' ''0xMaker'' 1700003600)"
    by (simp add: sample_partial_def amount_non_positive_def BigInt_zero)
  then have 2: "\<exists>e. validateOrderParams 1700000000 (sample_partial ''0'' ''0xMaker'' 1700003600) = Inl e"
    using validateOrderParams_raises_iff [of 1700000000 "sample_partial ''0'' ''0xMaker'' 1700003600"]
    by blast
  have "required_field_falsy (sample_partial ''1000000'' [] 1700003600)"
    by (simp add: sample_partial_def required_field_falsy_def)
  then have 3: "\<exists>e. validateOrderParams 1700000000 (sample_partial ''1000000'' [] 1700003600) = Inl e"
    using validateOrderParams_raises_iff [of 1700000000 "sample_partial ''1000000'' [] 1700003600"]
    by blast
  have "deadline_not_in_future 1700000000 (sample_partial ''1000000'' ''0xMaker'' 1700000000)"
    by (simp add: sample_partial_def deadline_not_in_future_def)
  then have 4: "\<exists>e. validateOrderParams 1700000000 (sample_partial ''1000000'' ''0xMaker'' 1700000000) = Inl e"
    using validateOrderParams_raises_iff [of 1700000000 "sample_partial ''1000000'' ''0xMaker'' 1700000000"]
    by blast
  from 1 2 3 4 5 show ?thesis by blast
qed

section \<open>Properties of generateSecretsAndHashLock\<close>

lemma enumerate_map_nth:
  "map f (enumerate 0 xs) = map (\<lambda>i. f (i, xs ! i)) [0 ..< length xs]"
  by (rule nth_equalityI) (simp_all add: nth_enumerate_eq)

lemma hex_digit_in_alphabet: "hex_digit d \<in> set ''0123456789abcdef''"
proof -
  have "d mod 16 < length ''0123456789abcdef''" by simp
  then show ?thesis unfolding hex_digit_def by (rule nth_mem)
qed

lemma hex_of_bytes_shape:
  "length (hex_of_bytes bs) = 2 * length bs
   \<and> list_all (\<lambda>c. c \<in> set ''0123456789abcdef'') (hex_of_bytes bs)"
proof (induction bs)
  case Nil
  then show ?case by (simp add: hex_of_bytes_def)
next
  case (Cons b bs)
  then show ?case
    using hex_digit_in_alphabet [of "b div 16"] hex_digit_in_alphabet [of b]
    by (simp add: hex_of_bytes_def)
qed

text \<open>Every secret has the form that the SDK's hash functions require.\<close>

lemma getRandomBytes32_form: "is_bytes32_hex (getRandomBytes32 C k)"
  using hex_of_bytes_shape [of "randomBytes C k 32"]
  by (simp add: is_bytes32_hex_def getRandomBytes32_def randomBytes_def)

lemma generate_single:
  "generateSecretsAndHashLock C k 1 =
     (Inr \<lparr> gen_secrets = [getRandomBytes32 C k],
            gen_secretHashes = [hashSecret C (getRandomBytes32 C k)],
            gen_hashLock = ForSingleFill (getRandomBytes32 C k) \<rparr>,
      k + 1)"
  by (simp add: generateSecretsAndHashLock_def)

lemma generate_multiple:
  assumes "2 < n"
  shows "generateSecretsAndHashLock C k n =
     (Inr \<lparr> gen_secrets = map (getRandomBytes32 C) [k ..< k + n],
            gen_secretHashes = map (hashSecret C) (map (getRandomBytes32 C) [k ..< k + n]),
            gen_hashLock =
              ForMultipleFills
                (map (\<lambda>(i, secretHash). solidityPackedKeccak256 C i secretHash)
                   (enumerate 0 (map (hashSecret C) (map (getRandomBytes32 C) [k ..< k + n])))) \<rparr>,
      k + n)"
  using assms by (simp add: generateSecretsAndHashLock_def HashLock_forMultipleFills_def Let_def)

lemma generate_rejected:
  assumes "n = 0 \<or> n = 2"
  shows "generateSecretsAndHashLock C k n = (Inl HashLockAssertion, k + n)"
  using assms
  by (auto simp: generateSecretsAndHashLock_def HashLock_forMultipleFills_def Let_def)

text \<open>
  Claim C8, as stated, fails at \<open>secretsCount = 2\<close>: the commitment is built by
  \<open>HashLock.forMultipleFills\<close> on two leaves, which throws, and the function returns
  nothing.
\<close>

theorem generateSecretsAndHashLock_two_secrets_counterexample:
  "generateSecretsAndHashLock sample_crypto 0 2 = (Inl HashLockAssertion, 2)"
  by code_simp

text \<open>
  Claim C8, amended. For \<open>secretsCount = 1\<close> and for every \<open>secretsCount \<ge> 3\<close>,
  \<open>generateSecretsAndHashLock\<close> returns \<open>secretsCount\<close> secrets and \<open>secretsCount\<close> hashes,
  the hash at every index being the hash of the secret at that index; for
  \<open>secretsCount = 1\<close> the commitment is the single-fill form of the one secret, and for
  \<open>secretsCount \<ge> 3\<close> it is the multi-fill form over the packed hashes of the pairs of
  index and secret hash. For \<open>secretsCount = 2\<close> (and for 0) the function throws the
  \<open>AssertionError\<close> of \<open>HashLock.forMultipleFills\<close>, which requires more than two leaves.
\<close>

theorem generateSecretsAndHashLock_shape:
  "(secretsCount = 1 \<or> 2 < secretsCount \<longrightarrow>
      (\<exists>g. generateSecretsAndHashLock C k secretsCount = (Inr g, k + secretsCount)
         \<and> length (gen_secrets g) = secretsCount
         \<and> length (gen_secretHashes g) = secretsCount
         \<and> (\<forall>i < secretsCount. gen_secretHashes g ! i = hashSecret C (gen_secrets g ! i))
         \<and> (secretsCount = 1 \<longrightarrow> gen_hashLock g = ForSingleFill (gen_secrets g ! 0))
         \<and> (2 < secretsCount \<longrightarrow>
              gen_hashLock g =
                ForMultipleFills
                  (map (\<lambda>i. solidityPackedKeccak256 C i (gen_secretHashes g ! i))
                     [0 ..< secretsCount]))))
   \<and> (secretsCount = 0 \<or> secretsCount = 2 \<longrightarrow>
        generateSecretsAndHashLock C k secretsCount = (Inl HashLockAssertion, k + secretsCount))"
proof (intro conjI impI)
  assume "secretsCount = 0 \<or> secretsCount = 2"
  then show "generateSecretsAndHashLock C k secretsCount = (Inl HashLockAssertion, k + secretsCount)"
    by (rule generate_rejected)
next
  assume ok: "secretsCount = 1 \<or> 2 < secretsCount"
  show "\<exists>g. generateSecretsAndHashLock C k secretsCount = (Inr g, k + secretsCount)
         \<and> length (gen_secrets g) = secretsCount
         \<and> length (gen_secretHashes g) = secretsCount
         \<and> (\<forall>i < secretsCount. gen_secretHashes g ! i = hashSecret C (gen_secrets g ! i))
         \<and> (secretsCount = 1 \<longrightarrow> gen_hashLock g = ForSingleFill (gen_secrets g ! 0))
         \<and> (2 < secretsCount \<longrightarrow>
              gen_hashLock g =
                ForMultipleFills
                  (map (\<lambda>i. solidityPackedKeccak256 C i (gen_secretHashes g ! i))
                     [0 ..< secretsCount]))"
  proof (cases "secretsCount = 1")
    case True
    show ?thesis
      unfolding True
      using generate_single [of C k]
      by (intro exI [of _ "\<lparr> gen_secrets = [getRandomBytes32 C k],
            gen_secretHashes = [hashSecret C (getRandomBytes32 C k)],
            gen_hashLock = ForSingleFill (getRandomBytes32 C k) \<rparr>"])
        simp
  next
    case False
    with ok have many: "2 < secretsCount" by simp
    let ?secrets = "map (getRandomBytes32 C) [k ..< k + secretsCount]"
    let ?hashes = "map (hashSecret C) ?secrets"
    let ?g = "\<lparr> gen_secrets = ?secrets, gen_secretHashes = ?hashes,
            gen_hashLock =
              ForMultipleFills
                (map (\<lambda>(i, secretHash). solidityPackedKeccak256 C i secretHash)
                   (enumerate 0 ?hashes)) \<rparr>"
    have 1: "generateSecretsAndHashLock C k secretsCount = (Inr ?g, k + secretsCount)"
      using many by (rule generate_multiple)
    have 2: "length (gen_secrets ?g) = secretsCount" "length (gen_secretHashes ?g) = secretsCount"
      by simp_all
    have 3: "\<forall>i < secretsCount. gen_secretHashes ?g ! i = hashSecret C (gen_secrets ?g ! i)"
      by simp
    have 4: "gen_hashLock ?g =
                ForMultipleFills
                  (map (\<lambda>i. solidityPackedKeccak256 C i (gen_secretHashes ?g ! i))
                     [0 ..< secretsCount])"
      by (simp add: enumerate_map_nth)
    from 1 2 3 4 False show ?thesis by blast
  qed
qed

text \<open>Three secrets and one secret are returned with their hashes; two are rejected.\<close>

theorem generateSecretsAndHashLock_shape_witness:
  "(\<exists>g. generateSecretsAndHashLock sample_crypto 0 3 = (Inr g, 3)
        \<and> length (gen_secrets g) = 3 \<and> length (gen_secretHashes g) = 3
        \<and> gen_hashLock g =
            ForMultipleFills
              (map (\<lambda>i. solidityPackedKeccak256 sample_crypto i (gen_secretHashes g ! i)) [0 ..< 3]))
   \<and> (\<exists>g. generateSecretsAndHashLock sample_crypto 7 1 = (Inr g, 8)
        \<and> length (gen_secrets g) = 1
        \<and> gen_hashLock g = ForSingleFill (gen_secrets g ! 0))
   \<and> generateSecretsAndHashLock sample_crypto 0 2 = (Inl HashLockAssertion, 2)"
proof -
  have three: "(3::nat) = 1 \<or> 2 < (3::nat)" and one: "(1::nat) = 1 \<or> 2 < (1::nat)"
    and two: "(2::nat) = 0 \<or> (2::nat) = 2"
    by simp_all
  from generateSecretsAndHashLock_shape [of 3 sample_crypto 0] three
  obtain g3 where "generateSecretsAndHashLock sample_crypto 0 3 = (Inr g3, 0 + 3)"
    "length (gen_secrets g3) = 3" "length (gen_secretHashes g3) = 3"
    "gen_hashLock g3 =
       ForMultipleFills
         (map (\<lambda>i. solidityPackedKeccak256 sample_crypto i (gen_secretHashes g3 ! i)) [0 ..< 3])"
    by auto
  then have a: "\<exists>g. generateSecretsAndHashLock sample_crypto 0 3 = (Inr g, 3)
        \<and> length (gen_secrets g) = 3 \<and> length (gen_secretHashes g) = 3
        \<and> gen_hashLock g =
            ForMultipleFills
              (map (\<lambda>i. solidityPackedKeccak256 sample_crypto i (gen_secretHashes g ! i)) [0 ..< 3])"
    by (intro exI [of _ g3]) simp
  from generateSecretsAndHashLock_shape [of 1 sample_crypto 7] one
  obtain g1 where "generateSecretsAndHashLock sample_crypto 7 1 = (Inr g1, 7 + 1)"
    "length (gen_secrets g1) = 1" "gen_hashLock g1 = ForSingleFill (gen_secrets g1 ! 0)"
    by auto
  then have b: "\<exists>g. generateSecretsAndHashLock sample_crypto 7 1 = (Inr g, 8)
        \<and> length (gen_secrets g) = 1
        \<and> gen_hashLock g = ForSingleFill (gen_secrets g ! 0)"
    by (intro exI [of _ g1]) simp
  from generateSecretsAndHashLock_shape [of 2 sample_crypto 0] two
  have c: "generateSecretsAndHashLock sample_crypto 0 2 = (Inl HashLockAssertion, 2)"
    by simp
  from a b c show ?thesis by blast
qed

section \<open>Properties of the adapter registry\<close>

subsection \<open>The decimal numeral determines the number\<close>








subsection \<open>The invariant of the registry\<close>

lemma registry_ok_register: "registry_ok F \<Longrightarrow> registry_ok (registerAdapter F c f)"
  by (auto simp: registry_ok_def registerAdapter_def Let_def)

lemma registry_ok_create: "registry_ok F \<Longrightarrow> registry_ok (snd (createAdapter F c))"
  by (auto simp: registry_ok_def createAdapter_def Let_def less_Suc_eq
      split: option.splits registered.splits)

lemma registry_ok_clear: "registry_ok F \<Longrightarrow> registry_ok (clearCache F)"
  by (simp add: registry_ok_def clearCache_def)

lemma registry_ok_new: "registry_ok new_ChainAdapterFactory"
  unfolding new_ChainAdapterFactory_def registerDefaultAdapters_def Let_def
  by (intro registry_ok_register) (simp add: registry_ok_def)

lemma reachable_ok: "reachable F \<Longrightarrow> registry_ok F"
  by (induction rule: reachable.induct)
    (simp_all add: registry_ok_new registry_ok_register registry_ok_create registry_ok_clear)

subsection \<open>What createAdapter does\<close>

text \<open>A call that throws leaves the registry as it was.\<close>

lemma createAdapter_error_keeps:
  "fst (createAdapter F c) = Inl e \<Longrightarrow> snd (createAdapter F c) = F"
  by (auto simp: createAdapter_def Let_def split: option.splits registered.splits)


text \<open>
  After \<open>registerAdapter\<close> the cache slot of the chain is empty, and the next call applies
  \<open>new\<close> to the new registration: it throws on an arrow function and allocates on a
  constructible value.
\<close>

lemma createAdapter_after_register:
  "reg_instances (registerAdapter F c f) (chain_toString c) = None"
  "createAdapter (registerAdapter F c (ArrowFunction body)) c =
     (Inl NotAConstructor, registerAdapter F c (ArrowFunction body))"
  "fst (createAdapter (registerAdapter F c (Constructible cls)) c) = Inr (length (reg_heap F))"
  "reg_heap (snd (createAdapter (registerAdapter F c (Constructible cls)) c)) = reg_heap F @ [cls]"
  by (simp_all add: createAdapter_def registerAdapter_def Let_def)

lemma createAdapter_not_registered:
  assumes "reachable F" and "reg_adapters F (chain_toString c) = None"
  shows "createAdapter F c = (Inl (NoAdapterRegistered (chain_toString c)), F)"
proof -
  from assms(1) have ok: "registry_ok F" by (rule reachable_ok)
  have "reg_instances F (chain_toString c) = None"
  proof (rule ccontr)
    assume "reg_instances F (chain_toString c) \<noteq> None"
    then obtain a0 where "reg_instances F (chain_toString c) = Some a0" by auto
    with ok have "reg_adapters F (chain_toString c) \<noteq> None"
      unfolding registry_ok_def by blast
    with assms(2) show False by simp
  qed
  with assms(2) show ?thesis by (simp add: createAdapter_def)
qed

lemma default_registration_results:
  "fst (createAdapter new_ChainAdapterFactory (ChainNumber (safe 128123))) = Inl NotAConstructor"
  "fst (createAdapter new_ChainAdapterFactory (ChainNumber (safe 137))) = Inl NotAConstructor"
  "fst (createAdapter new_ChainAdapterFactory (ChainString ''aptos-mainnet'')) = Inl NotAConstructor"
  "fst (createAdapter new_ChainAdapterFactory (ChainString ''sui-mainnet'')) = Inl NotAConstructor"
  "fst (createAdapter new_ChainAdapterFactory (ChainString ''tezos-mainnet'')) = Inl NotAConstructor"
  by code_simp+

text \<open>
  Claim C7 against the code. In the registry that the constructor builds, \<open>createAdapter\<close>
  for each of the five chains registered by default throws the \<open>TypeError\<close> of
  \<open>new AdapterClass()\<close> and leaves the registry as it was: no instance is returned, none
  is cached, and a second call does the same.
\<close>

theorem createAdapter_default_registrations_throw:
  "createAdapter new_ChainAdapterFactory (ChainNumber (safe 128123))
     = (Inl NotAConstructor, new_ChainAdapterFactory)
   \<and> createAdapter new_ChainAdapterFactory (ChainNumber (safe 137))
     = (Inl NotAConstructor, new_ChainAdapterFactory)
   \<and> createAdapter new_ChainAdapterFactory (ChainString ''aptos-mainnet'')
     = (Inl NotAConstructor, new_ChainAdapterFactory)
   \<and> createAdapter new_ChainAdapterFactory (ChainString ''sui-mainnet'')
     = (Inl NotAConstructor, new_ChainAdapterFactory)
   \<and> createAdapter new_ChainAdapterFactory (ChainString ''tezos-mainnet'')
     = (Inl NotAConstructor, new_ChainAdapterFactory)"
  using default_registration_results
    createAdapter_error_keeps [of new_ChainAdapterFactory _ NotAConstructor]
  by (simp add: prod_eq_iff)

subsection \<open>Numbers and strings as chain identifiers\<close>






section \<open>Properties of the order manager\<close>

subsection \<open>State updates\<close>

lemma stopOrderMonitoring_fields [simp]:
  "activeOrders (stopOrderMonitoring h m) = activeOrders m"
  "orderSecrets (stopOrderMonitoring h m) = orderSecrets m"
  "adapters (stopOrderMonitoring h m) = adapters m"
  "history (stopOrderMonitoring h m) = history m"
  "pollingIntervals (stopOrderMonitoring h m) h = None"
  by (simp_all add: stopOrderMonitoring_def split: option.splits)

lemma stopOrderMonitoring_timer:
  "pollingIntervals m h = Some t \<Longrightarrow> liveTimers (stopOrderMonitoring h m) t = None"
  by (simp add: stopOrderMonitoring_def)

lemma emit_fields [simp]:
  "activeOrders (emit e m) = activeOrders m"
  "orderSecrets (emit e m) = orderSecrets m"
  "adapters (emit e m) = adapters m"
  "pollingIntervals (emit e m) = pollingIntervals m"
  "liveTimers (emit e m) = liveTimers m"
  "timerCount (emit e m) = timerCount m"
  "drawn (emit e m) = drawn m"
  "history (emit e m) = history m @ [e]"
  by (simp_all add: emit_def)

lemma monitored_state:
  "activeOrders (monitored s) ''0xorder'' = Some (sample_order s)"
  "orderSecrets (monitored s) ''0xorder'' = Some [''0xs0'']"
  "pollingIntervals (monitored s) ''0xorder'' = Some 1"
  "adapters (monitored s) (ChainNumber (safe 42161)) = Some 0"
  "activeOrders (monitored s) ''0xmissing'' = None"
  by (simp_all add: monitored_def holding_def startOrderMonitoring_def fresh_manager_def
      sample_chains_distinct)

lemma holding_state:
  "activeOrders (holding s) ''0xorder'' = Some (sample_order s)"
  "orderSecrets (holding s) ''0xorder'' = Some [''0xs0'']"
  by (simp_all add: holding_def fresh_manager_def)

lemma sample_order_fields:
  "status (sample_order s) = s"
  "fills (sample_order s) = []"
  "srcChain (sample_order s) = ChainNumber (safe 42161)"
  by (simp_all add: sample_order_def new_order_def sample_params_def)

lemma service_answers:
  "sdk_getOrderStatus (service reported ready cancelling) hist h = Inr reported"
  "sdk_getReadyToAcceptSecretFills (service reported ready cancelling) hist h = Inr ready"
  "sdk_submitSecret (service reported ready cancelling) hist h secret = Inr ()"
  "adapter_cancelOrder (service reported ready cancelling) hist a h = cancelling"
  by (simp_all add: service_def)

subsection \<open>The status check\<close>

text \<open>
  Claim C5. In the status check of a tick on a stored order: if the Settlement Service
  reports \<open>executed\<close>, the status becomes EXECUTED and the monitoring of the order stops
  (its interval timer is cleared and its entry removed); if it reports \<open>cancelled\<close>, the
  status becomes CANCELLED and the monitoring stops; for every other reported status the
  orders and the timers are left as they were.
\<close>

theorem checkOrderStatus_transitions:
  assumes "activeOrders m h = Some order"
  shows "(sdk_getOrderStatus E (history m) h = Inr ''executed'' \<longrightarrow>
            activeOrders (checkOrderStatus E h m) h = Some (order\<lparr>status := EXECUTED\<rparr>)
          \<and> pollingIntervals (checkOrderStatus E h m) h = None
          \<and> (\<forall>t. pollingIntervals m h = Some t \<longrightarrow> liveTimers (checkOrderStatus E h m) t = None))
       \<and> (sdk_getOrderStatus E (history m) h = Inr ''cancelled'' \<longrightarrow>
            activeOrders (checkOrderStatus E h m) h = Some (order\<lparr>status := CANCELLED\<rparr>)
          \<and> pollingIntervals (checkOrderStatus E h m) h = None
          \<and> (\<forall>t. pollingIntervals m h = Some t \<longrightarrow> liveTimers (checkOrderStatus E h m) t = None))
       \<and> (\<forall>reported. sdk_getOrderStatus E (history m) h = Inr reported
              \<and> reported \<noteq> ''executed'' \<and> reported \<noteq> ''cancelled'' \<longrightarrow>
            activeOrders (checkOrderStatus E h m) = activeOrders m
          \<and> pollingIntervals (checkOrderStatus E h m) = pollingIntervals m
          \<and> liveTimers (checkOrderStatus E h m) = liveTimers m)"
proof (intro conjI impI allI)
  assume r: "sdk_getOrderStatus E (history m) h = Inr ''executed''"
  then have eq: "checkOrderStatus E h m =
      stopOrderMonitoring h
        ((emit (GetOrderStatus h) m)\<lparr>activeOrders := (activeOrders m)(h \<mapsto> order\<lparr>status := EXECUTED\<rparr>)\<rparr>)"
    using assms by (simp add: checkOrderStatus_def Let_def)
  show "activeOrders (checkOrderStatus E h m) h = Some (order\<lparr>status := EXECUTED\<rparr>)"
    by (simp add: eq)
  show "pollingIntervals (checkOrderStatus E h m) h = None"
    by (simp add: eq)
  fix t assume "pollingIntervals m h = Some t"
  then show "liveTimers (checkOrderStatus E h m) t = None"
    unfolding eq by (intro stopOrderMonitoring_timer) simp
next
  assume r: "sdk_getOrderStatus E (history m) h = Inr ''cancelled''"
  then have eq: "checkOrderStatus E h m =
      stopOrderMonitoring h
        ((emit (GetOrderStatus h) m)\<lparr>activeOrders := (activeOrders m)(h \<mapsto> order\<lparr>status := CANCELLED\<rparr>)\<rparr>)"
    using assms by (simp add: checkOrderStatus_def Let_def)
  show "activeOrders (checkOrderStatus E h m) h = Some (order\<lparr>status := CANCELLED\<rparr>)"
    by (simp add: eq)
  show "pollingIntervals (checkOrderStatus E h m) h = None"
    by (simp add: eq)
  fix t assume "pollingIntervals m h = Some t"
  then show "liveTimers (checkOrderStatus E h m) t = None"
    unfolding eq by (intro stopOrderMonitoring_timer) simp
next
  fix reported
  assume "sdk_getOrderStatus E (history m) h = Inr reported
              \<and> reported \<noteq> ''executed'' \<and> reported \<noteq> ''cancelled''"
  then have eq: "checkOrderStatus E h m = emit (GetOrderStatus h) m"
    using assms by (simp add: checkOrderStatus_def Let_def)
  show "activeOrders (checkOrderStatus E h m) = activeOrders m" by (simp add: eq)
  show "pollingIntervals (checkOrderStatus E h m) = pollingIntervals m" by (simp add: eq)
  show "liveTimers (checkOrderStatus E h m) = liveTimers m" by (simp add: eq)
qed

text \<open>The three cases on the monitored sample order.\<close>

theorem checkOrderStatus_transitions_witness:
  "activeOrders (checkOrderStatus (service ''executed'' [] (Inr ())) ''0xorder'' (monitored PENDING))
     ''0xorder'' = Some ((sample_order PENDING)\<lparr>status := EXECUTED\<rparr>)
   \<and> pollingIntervals (checkOrderStatus (service ''executed'' [] (Inr ())) ''0xorder'' (monitored PENDING))
       ''0xorder'' = None
   \<and> liveTimers (checkOrderStatus (service ''executed'' [] (Inr ())) ''0xorder'' (monitored PENDING))
       1 = None
   \<and> activeOrders (checkOrderStatus (service ''cancelled'' [] (Inr ())) ''0xorder'' (monitored PENDING))
       ''0xorder'' = Some ((sample_order PENDING)\<lparr>status := CANCELLED\<rparr>)
   \<and> pollingIntervals (checkOrderStatus (service ''cancelled'' [] (Inr ())) ''0xorder'' (monitored PENDING))
       ''0xorder'' = None
   \<and> activeOrders (checkOrderStatus (service ''pending'' [] (Inr ())) ''0xorder'' (monitored PENDING))
       = activeOrders (monitored PENDING)
   \<and> pollingIntervals (checkOrderStatus (service ''pending'' [] (Inr ())) ''0xorder'' (monitored PENDING))
       = pollingIntervals (monitored PENDING)"
proof -
  have differ: "''pending'' \<noteq> ''executed''" "''pending'' \<noteq> ''cancelled''"
    by simp_all
  show ?thesis
    using checkOrderStatus_transitions [OF monitored_state(1) [of PENDING],
        where E = "service ''executed'' [] (Inr ())"]
      checkOrderStatus_transitions [OF monitored_state(1) [of PENDING],
        where E = "service ''cancelled'' [] (Inr ())"]
      checkOrderStatus_transitions [OF monitored_state(1) [of PENDING],
        where E = "service ''pending'' [] (Inr ())"]
      differ
    by (simp add: service_answers monitored_state)
qed

subsection \<open>cancelOrder\<close>

text \<open>
  Claim C6. \<open>cancelOrder\<close> on an order id that is not stored fails with "Order not found"
  and leaves the manager as it was. On a stored order whose source chain has an adapter:
  if the adapter's cancellation succeeds, the call succeeds, the status becomes CANCELLED
  and the monitoring of the order stops; if the adapter's cancellation fails, its error is
  passed to the caller and the orders (status and fills), the secrets and the timers are
  left as they were.
\<close>

theorem cancelOrder_outcomes:
  "(activeOrders m h = None \<longrightarrow> cancelOrder E h m = (Inl (OrderNotFound h), m))
   \<and> (activeOrders m h = Some order \<and> adapters m (srcChain order) = Some srcAdapter \<longrightarrow>
        (adapter_cancelOrder E (history m) srcAdapter h = Inr () \<longrightarrow>
           fst (cancelOrder E h m) = Inr ()
         \<and> activeOrders (snd (cancelOrder E h m)) h = Some (order\<lparr>status := CANCELLED\<rparr>)
         \<and> pollingIntervals (snd (cancelOrder E h m)) h = None
         \<and> (\<forall>t. pollingIntervals m h = Some t \<longrightarrow> liveTimers (snd (cancelOrder E h m)) t = None))
      \<and> (\<forall>e. adapter_cancelOrder E (history m) srcAdapter h = Inl e \<longrightarrow>
           fst (cancelOrder E h m) = Inl (Rejected e)
         \<and> activeOrders (snd (cancelOrder E h m)) = activeOrders m
         \<and> orderSecrets (snd (cancelOrder E h m)) = orderSecrets m
         \<and> pollingIntervals (snd (cancelOrder E h m)) = pollingIntervals m
         \<and> liveTimers (snd (cancelOrder E h m)) = liveTimers m))"
proof (intro conjI impI allI)
  assume "activeOrders m h = None"
  then show "cancelOrder E h m = (Inl (OrderNotFound h), m)"
    by (simp add: cancelOrder_def)
next
  assume st: "activeOrders m h = Some order \<and> adapters m (srcChain order) = Some srcAdapter"
    and ok: "adapter_cancelOrder E (history m) srcAdapter h = Inr ()"
  then have eq: "cancelOrder E h m =
      (Inr (), stopOrderMonitoring h
         ((emit (AdapterCancelOrder srcAdapter h) m)\<lparr>activeOrders := (activeOrders m)(h \<mapsto> order\<lparr>status := CANCELLED\<rparr>)\<rparr>))"
    by (simp add: cancelOrder_def Let_def)
  show "fst (cancelOrder E h m) = Inr ()" by (simp add: eq)
  show "activeOrders (snd (cancelOrder E h m)) h = Some (order\<lparr>status := CANCELLED\<rparr>)"
    by (simp add: eq)
  show "pollingIntervals (snd (cancelOrder E h m)) h = None" by (simp add: eq)
  fix t assume "pollingIntervals m h = Some t"
  then show "liveTimers (snd (cancelOrder E h m)) t = None"
    unfolding eq snd_conv by (intro stopOrderMonitoring_timer) simp
next
  fix e
  assume st: "activeOrders m h = Some order \<and> adapters m (srcChain order) = Some srcAdapter"
    and bad: "adapter_cancelOrder E (history m) srcAdapter h = Inl e"
  then have eq: "cancelOrder E h m = (Inl (Rejected e), emit (AdapterCancelOrder srcAdapter h) m)"
    by (simp add: cancelOrder_def Let_def)
  show "fst (cancelOrder E h m) = Inl (Rejected e)" by (simp add: eq)
  show "activeOrders (snd (cancelOrder E h m)) = activeOrders m" by (simp add: eq)
  show "orderSecrets (snd (cancelOrder E h m)) = orderSecrets m" by (simp add: eq)
  show "pollingIntervals (snd (cancelOrder E h m)) = pollingIntervals m" by (simp add: eq)
  show "liveTimers (snd (cancelOrder E h m)) = liveTimers m" by (simp add: eq)
qed

text \<open>An unknown id, a successful and a rejected cancellation of the sample order.\<close>

theorem cancelOrder_outcomes_witness:
  "cancelOrder (service ''pending'' [] (Inr ())) ''0xmissing'' (monitored PENDING)
     = (Inl (OrderNotFound ''0xmissing''), monitored PENDING)
   \<and> fst (cancelOrder (service ''pending'' [] (Inr ())) ''0xorder'' (monitored PENDING)) = Inr ()
   \<and> activeOrders (snd (cancelOrder (service ''pending'' [] (Inr ())) ''0xorder'' (monitored PENDING)))
       ''0xorder'' = Some ((sample_order PENDING)\<lparr>status := CANCELLED\<rparr>)
   \<and> pollingIntervals (snd (cancelOrder (service ''pending'' [] (Inr ())) ''0xorder'' (monitored PENDING)))
       ''0xorder'' = None
   \<and> liveTimers (snd (cancelOrder (service ''pending'' [] (Inr ())) ''0xorder'' (monitored PENDING)))
       1 = None
   \<and> fst (cancelOrder (service ''pending'' [] (Inl ''rpc down'')) ''0xorder'' (monitored PENDING))
       = Inl (Rejected ''rpc down'')
   \<and> activeOrders (snd (cancelOrder (service ''pending'' [] (Inl ''rpc down'')) ''0xorder'' (monitored PENDING)))
       = activeOrders (monitored PENDING)
   \<and> pollingIntervals (snd (cancelOrder (service ''pending'' [] (Inl ''rpc down'')) ''0xorder'' (monitored PENDING)))
       = pollingIntervals (monitored PENDING)"
  using cancelOrder_outcomes [where m = "monitored PENDING" and h = "''0xmissing''"
      and E = "service ''pending'' [] (Inr ())"]
    cancelOrder_outcomes [where m = "monitored PENDING" and h = "''0xorder''"
      and order = "sample_order PENDING" and srcAdapter = 0
      and E = "service ''pending'' [] (Inr ())"]
    cancelOrder_outcomes [where m = "monitored PENDING" and h = "''0xorder''"
      and order = "sample_order PENDING" and srcAdapter = 0
      and E = "service ''pending'' [] (Inl ''rpc down'')"]
  by (simp add: service_answers monitored_state sample_order_fields)

subsection \<open>Fill processing\<close>

lemma submitFill_fields [simp]:
  "orderSecrets (submitFill E h sl fill m) = orderSecrets m"
  "history (submitFill E h sl fill m) = history m @ [SubmitSecret h (nth_opt sl (idx fill))]"
  by (simp_all add: submitFill_def Let_def split: sum.splits option.splits)

lemma submitFill_order:
  assumes "activeOrders m h = Some order"
  shows "activeOrders (submitFill E h sl fill m) h =
     Some (order\<lparr>fills := fills order @ appended_fills E h sl [fill] (history m)\<rparr>)"
  using assms by (simp add: submitFill_def Let_def split: sum.splits)

lemma appended_fills_step:
  "appended_fills E h sl (fill # rest) hist =
     appended_fills E h sl [fill] hist
       @ appended_fills E h sl rest (hist @ [SubmitSecret h (nth_opt sl (idx fill))])"
  by simp

lemma submitFills_order:
  assumes "activeOrders m h = Some order"
  shows "activeOrders (submitFills E h sl ready m) h =
     Some (order\<lparr>fills := fills order @ appended_fills E h sl ready (history m)\<rparr>)"
  using assms
proof (induction ready arbitrary: m order)
  case Nil
  then show ?case by simp
next
  case (Cons fill rest)
  let ?m1 = "submitFill E h sl fill m"
  let ?o1 = "order\<lparr>fills := fills order @ appended_fills E h sl [fill] (history m)\<rparr>"
  have o1: "activeOrders ?m1 h = Some ?o1"
    using Cons.prems by (rule submitFill_order)
  have "activeOrders (submitFills E h sl rest ?m1) h =
      Some (?o1\<lparr>fills := fills ?o1 @ appended_fills E h sl rest (history ?m1)\<rparr>)"
    using o1 by (rule Cons.IH)
  then show ?case
    by (simp only: submitFills.simps appended_fills_step [of E h sl fill rest]) simp
qed

lemma submitFills_secrets [simp]:
  "orderSecrets (submitFills E h sl ready m) = orderSecrets m"
  by (induction ready arbitrary: m) simp_all

lemma processOrderFills_secrets [simp]:
  "orderSecrets (processOrderFills E h m) = orderSecrets m"
  by (simp add: processOrderFills_def Let_def split: option.splits sum.splits)

lemma processOrderFills_order:
  assumes "activeOrders m h = Some order" and "orderSecrets m h = Some sl"
  shows "activeOrders (processOrderFills E h m) h =
     Some (order\<lparr>fills := fills order @
        (case sdk_getReadyToAcceptSecretFills E (history m) h of
           Inl e \<Rightarrow> []
         | Inr ready \<Rightarrow> appended_fills E h sl ready (history m @ [GetReadyToAcceptSecretFills h]))\<rparr>)"
proof (cases "sdk_getReadyToAcceptSecretFills E (history m) h")
  case (Inl e)
  then show ?thesis using assms by (simp add: processOrderFills_def Let_def)
next
  case (Inr ready)
  have "activeOrders (emit (GetReadyToAcceptSecretFills h) m) h = Some order"
    using assms(1) by simp
  from submitFills_order [OF this, of E sl ready]
  show ?thesis
    using assms Inr by (cases ready) (simp_all add: processOrderFills_def Let_def)
qed

lemma processOrderFills_no_secrets:
  "orderSecrets m h = None \<Longrightarrow> processOrderFills E h m = m"
  by (simp add: processOrderFills_def)

lemma appended_all_accepted:
  assumes "\<forall>hist secret. sdk_submitSecret E hist h secret = Inr ()"
  shows "map fill_idx (appended_fills E h sl ready hist) = map idx ready"
  using assms by (induction ready arbitrary: hist) (simp_all add: fill_record_def)

lemma checkOrderStatus_secrets [simp]:
  "orderSecrets (checkOrderStatus E h m) = orderSecrets m"
  by (simp add: checkOrderStatus_def Let_def split: option.splits sum.splits)

lemma checkOrderStatus_order:
  assumes "activeOrders m h = Some order"
  shows "activeOrders (checkOrderStatus E h m) h =
     Some (order\<lparr>status :=
        (case sdk_getOrderStatus E (history m) h of
           Inl e \<Rightarrow> status order
         | Inr reported \<Rightarrow>
             if reported = ''executed'' then EXECUTED
             else if reported = ''cancelled'' then CANCELLED
             else status order)\<rparr>)"
  using assms by (simp add: checkOrderStatus_def Let_def split: sum.splits)

text \<open>
  Claim C1, as stated, fails: the Settlement Service reports the index 0 as ready in two
  consecutive ticks, each submission succeeds, and after the two ticks the order has two
  Fill records with the index 0.
\<close>

theorem monitoringTicks_duplicate_fill_counterexample:
  "ready_indices (service ''pending'' [fill_zero] (Inr ()))
       (''0xorder'') (history (checkOrderStatus (service ''pending'' [fill_zero] (Inr ())) ''0xorder'' (monitored PENDING))) = [0]
   \<and> ready_indices (service ''pending'' [fill_zero] (Inr ()))
       (''0xorder'')
       (history (checkOrderStatus (service ''pending'' [fill_zero] (Inr ())) ''0xorder''
          (monitoringTick (service ''pending'' [fill_zero] (Inr ())) ''0xorder'' (monitored PENDING)))) = [0]
   \<and> fill_indices (monitored PENDING) ''0xorder'' = []
   \<and> distinct (fill_indices
        (monitoringTick (service ''pending'' [fill_zero] (Inr ())) ''0xorder'' (monitored PENDING))
        ''0xorder'')
   \<and> fill_indices
        (monitoringTicks (service ''pending'' [fill_zero] (Inr ())) ''0xorder'' 2 (monitored PENDING))
        ''0xorder'' = [0, 0]
   \<and> \<not> distinct (fill_indices
        (monitoringTicks (service ''pending'' [fill_zero] (Inr ())) ''0xorder'' 2 (monitored PENDING))
        ''0xorder'')"
  by code_simp

text \<open>
  Claim C1, amended. In a tick on a stored order whose secret submissions succeed, fill
  processing appends one Fill record for every fill that the readiness query reports, in
  the reported order, whether or not the index is already recorded: the recorded indices
  after the tick are those before it followed by the reported ones. So an index reported
  in two consecutive ticks is recorded twice, and a tick keeps the recorded indices
  pairwise distinct exactly when the recorded indices followed by the reported ones are
  pairwise distinct. The order and its secrets stay stored.
\<close>

theorem monitoringTick_appends_every_ready_fill:
  assumes "activeOrders m h = Some order"
    and "orderSecrets m h = Some secretList"
    and "\<forall>hist secret. sdk_submitSecret E hist h secret = Inr ()"
  shows "fill_indices (monitoringTick E h m) h =
           fill_indices m h @ ready_indices E h (history (checkOrderStatus E h m))
       \<and> (distinct (fill_indices (monitoringTick E h m) h) \<longleftrightarrow>
            distinct (fill_indices m h @ ready_indices E h (history (checkOrderStatus E h m))))
       \<and> orderSecrets (monitoringTick E h m) h = Some secretList
       \<and> activeOrders (monitoringTick E h m) h \<noteq> None"
proof -
  let ?m1 = "checkOrderStatus E h m"
  obtain o1 where o1: "activeOrders ?m1 h = Some o1" and f1: "fills o1 = fills order"
    using checkOrderStatus_order [OF assms(1), of E] by simp
  have s1: "orderSecrets ?m1 h = Some secretList"
    using assms(2) by simp
  note p = processOrderFills_order [OF o1 s1, of E]
  have idx: "fill_indices (monitoringTick E h m) h =
           fill_indices m h @ ready_indices E h (history ?m1)"
    using p f1 assms(1) appended_all_accepted [OF assms(3)]
    by (simp add: monitoringTick_def fill_indices_def ready_indices_def split: sum.splits)
  have "orderSecrets (monitoringTick E h m) h = Some secretList"
    using assms(2) by (simp add: monitoringTick_def)
  moreover have "activeOrders (monitoringTick E h m) h \<noteq> None"
    using p by (simp add: monitoringTick_def)
  ultimately show ?thesis using idx by simp
qed

text \<open>One tick on the sample order records the reported index 0.\<close>

theorem monitoringTick_appends_every_ready_fill_witness:
  "fill_indices (monitoringTick (service ''pending'' [fill_zero] (Inr ())) ''0xorder'' (monitored PENDING)) ''0xorder'' = [0]
   \<and> orderSecrets (monitoringTick (service ''pending'' [fill_zero] (Inr ())) ''0xorder'' (monitored PENDING)) ''0xorder''
       = Some [''0xs0'']"
proof -
  have accepted: "\<forall>hist secret. sdk_submitSecret (service ''pending'' [fill_zero] (Inr ())) hist ''0xorder'' secret = Inr ()"
    by (simp add: service_answers)
  have reported: "ready_indices (service ''pending'' [fill_zero] (Inr ())) ''0xorder''
      (history (checkOrderStatus (service ''pending'' [fill_zero] (Inr ())) ''0xorder'' (monitored PENDING))) = [0]"
    by (simp add: ready_indices_def service_answers fill_zero_def)
  have before: "fill_indices (monitored PENDING) ''0xorder'' = []"
    by (simp add: fill_indices_def monitored_state sample_order_fields)
  show ?thesis
    using monitoringTick_appends_every_ready_fill
      [OF monitored_state(1) [of PENDING] monitored_state(2) [of PENDING] accepted]
    by (simp add: reported before)
qed

subsection \<open>Ticks on a terminal order\<close>

lemma appended_fills_none:
  "map idx ready = [] \<Longrightarrow> appended_fills E h sl ready hist = []"
  by (cases ready) simp_all

lemma monitoringTick_order:
  assumes "activeOrders m h = Some order"
  shows "\<exists>extra. activeOrders (monitoringTick E h m) h =
            Some (order\<lparr>status := status_after_check E h (history m) (status order),
                        fills := fills order @ extra\<rparr>)
          \<and> (ready_indices E h (history (checkOrderStatus E h m)) = [] \<longrightarrow> extra = [])"
proof -
  let ?m1 = "checkOrderStatus E h m"
  let ?o1 = "order\<lparr>status := status_after_check E h (history m) (status order)\<rparr>"
  have o1: "activeOrders ?m1 h = Some ?o1"
    using checkOrderStatus_order [OF assms, of E] by (simp add: status_after_check_def)
  show ?thesis
  proof (cases "orderSecrets m h")
    case None
    then have "processOrderFills E h ?m1 = ?m1"
      by (intro processOrderFills_no_secrets) simp
    then have "activeOrders (monitoringTick E h m) h = Some (?o1\<lparr>fills := fills order @ []\<rparr>)"
      using o1 by (simp add: monitoringTick_def)
    then show ?thesis by blast
  next
    case (Some sl)
    then have s1: "orderSecrets ?m1 h = Some sl" by simp
    let ?extra = "case sdk_getReadyToAcceptSecretFills E (history ?m1) h of
           Inl e \<Rightarrow> []
         | Inr ready \<Rightarrow> appended_fills E h sl ready (history ?m1 @ [GetReadyToAcceptSecretFills h])"
    have "activeOrders (monitoringTick E h m) h = Some (?o1\<lparr>fills := fills order @ ?extra\<rparr>)"
      using processOrderFills_order [OF o1 s1, of E] by (simp add: monitoringTick_def)
    moreover have "ready_indices E h (history ?m1) = [] \<longrightarrow> ?extra = []"
      by (auto simp: ready_indices_def appended_fills_none split: sum.splits)
    ultimately show ?thesis by blast
  qed
qed

lemma status_after_check_terminal:
  "is_terminal s \<Longrightarrow> is_terminal (status_after_check E h hist s)"
  by (simp add: is_terminal_def status_after_check_def split: sum.splits)

lemma status_after_check_same:
  assumes "s = EXECUTED \<and> sdk_getOrderStatus E hist h \<noteq> Inr ''cancelled''
         \<or> s = CANCELLED \<and> sdk_getOrderStatus E hist h \<noteq> Inr ''executed''"
  shows "status_after_check E h hist s = s"
  using assms by (auto simp: status_after_check_def split: sum.splits)

text \<open>
  Claim C3, as stated, fails on both counts. A tick on an EXECUTED order with no Fill
  record appends one when the Settlement Service reports a ready fill; and a tick on a
  CANCELLED order sets the status EXECUTED when the Settlement Service reports
  \<open>executed\<close>.
\<close>

theorem terminal_tick_counterexample:
  "map_option status (activeOrders (holding EXECUTED) ''0xorder'') = Some EXECUTED
   \<and> fill_indices (holding EXECUTED) ''0xorder'' = []
   \<and> fill_indices (monitoringTick (service ''executed'' [fill_zero] (Inr ())) ''0xorder'' (holding EXECUTED)) ''0xorder'' = [0]
   \<and> map_option status (activeOrders (holding CANCELLED) ''0xorder'') = Some CANCELLED
   \<and> map_option status (activeOrders (monitoringTick (service ''executed'' [fill_zero] (Inr ())) ''0xorder'' (holding CANCELLED)) ''0xorder'')
       = Some EXECUTED"
  by code_simp

text \<open>
  Claim C3, amended. Once the status of a stored order is EXECUTED or CANCELLED, after any
  number of further ticks the order is still stored, its status is still EXECUTED or
  CANCELLED, and the Fill records it had are still there, first and in order. The status
  keeps its value when the Settlement Service never reports the other of the two; no Fill
  record is appended when the fill-readiness query never reports a ready fill.
\<close>

theorem terminal_order_under_ticks:
  assumes "activeOrders m h = Some order" and "is_terminal (status order)"
  shows "\<exists>order'. activeOrders (monitoringTicks E h n m) h = Some order'
          \<and> is_terminal (status order')
          \<and> take (length (fills order)) (fills order') = fills order
          \<and> (status order = EXECUTED \<and> (\<forall>hist. sdk_getOrderStatus E hist h \<noteq> Inr ''cancelled'')
               \<longrightarrow> status order' = EXECUTED)
          \<and> (status order = CANCELLED \<and> (\<forall>hist. sdk_getOrderStatus E hist h \<noteq> Inr ''executed'')
               \<longrightarrow> status order' = CANCELLED)
          \<and> ((\<forall>hist. ready_indices E h hist = []) \<longrightarrow> fills order' = fills order)"
  using assms
proof (induction n arbitrary: m order)
  case 0
  then show ?case by simp
next
  case (Suc n)
  let ?s1 = "status_after_check E h (history m) (status order)"
  obtain extra where
    o1: "activeOrders (monitoringTick E h m) h = Some (order\<lparr>status := ?s1, fills := fills order @ extra\<rparr>)"
    and quiet: "ready_indices E h (history (checkOrderStatus E h m)) = [] \<longrightarrow> extra = []"
    using monitoringTick_order [OF Suc.prems(1), of E] by blast
  let ?o1 = "order\<lparr>status := ?s1, fills := fills order @ extra\<rparr>"
  have t1: "is_terminal (status ?o1)"
    using Suc.prems(2) by (simp add: status_after_check_terminal)
  from Suc.IH [OF o1 t1] obtain order' where
    a: "activeOrders (monitoringTicks E h n (monitoringTick E h m)) h = Some order'"
    and b: "is_terminal (status order')"
    and c: "take (length (fills ?o1)) (fills order') = fills ?o1"
    and d: "status ?o1 = EXECUTED \<and> (\<forall>hist. sdk_getOrderStatus E hist h \<noteq> Inr ''cancelled'')
               \<longrightarrow> status order' = EXECUTED"
    and e: "status ?o1 = CANCELLED \<and> (\<forall>hist. sdk_getOrderStatus E hist h \<noteq> Inr ''executed'')
               \<longrightarrow> status order' = CANCELLED"
    and f: "(\<forall>hist. ready_indices E h hist = []) \<longrightarrow> fills order' = fills ?o1"
    by blast
  have c': "take (length (fills order)) (fills order') = fills order"
  proof -
    have "take (length (fills order)) (take (length (fills ?o1)) (fills order')) = fills order"
      by (simp only: c) simp
    then show ?thesis by (simp add: min_def)
  qed
  have d': "status order = EXECUTED \<and> (\<forall>hist. sdk_getOrderStatus E hist h \<noteq> Inr ''cancelled'')
               \<longrightarrow> status order' = EXECUTED"
  proof
    assume h: "status order = EXECUTED \<and> (\<forall>hist. sdk_getOrderStatus E hist h \<noteq> Inr ''cancelled'')"
    then have "?s1 = EXECUTED"
      using status_after_check_same [of "status order" E "history m" h] by simp
    with d h show "status order' = EXECUTED" by simp
  qed
  have e': "status order = CANCELLED \<and> (\<forall>hist. sdk_getOrderStatus E hist h \<noteq> Inr ''executed'')
               \<longrightarrow> status order' = CANCELLED"
  proof
    assume h: "status order = CANCELLED \<and> (\<forall>hist. sdk_getOrderStatus E hist h \<noteq> Inr ''executed'')"
    then have "?s1 = CANCELLED"
      using status_after_check_same [of "status order" E "history m" h] by simp
    with e h show "status order' = CANCELLED" by simp
  qed
  have f': "(\<forall>hist. ready_indices E h hist = []) \<longrightarrow> fills order' = fills order"
    using f quiet by simp
  show ?case
    using a b c' d' e' f' by (simp only: monitoringTicks.simps) blast
qed

text \<open>
  Three ticks on the EXECUTED sample order, the Settlement Service reporting \<open>pending\<close> and
  no ready fill: the status and the (empty) Fill sequence are as before.
\<close>

theorem terminal_order_under_ticks_witness:
  "is_terminal (status (sample_order EXECUTED))
   \<and> (\<exists>order'. activeOrders
          (monitoringTicks (service ''pending'' [] (Inr ())) ''0xorder'' 3 (holding EXECUTED))
          ''0xorder'' = Some order'
        \<and> status order' = EXECUTED \<and> fills order' = [])"
proof -
  have t: "is_terminal (status (sample_order EXECUTED))"
    by (simp add: is_terminal_def sample_order_fields)
  have s: "status (sample_order EXECUTED) = EXECUTED \<and>
      (\<forall>hist. sdk_getOrderStatus (service ''pending'' [] (Inr ())) hist ''0xorder'' \<noteq> Inr ''cancelled'')"
    by (simp add: service_answers sample_order_fields)
  have r: "\<forall>hist. ready_indices (service ''pending'' [] (Inr ())) ''0xorder'' hist = []"
    by (simp add: ready_indices_def service_answers)
  from terminal_order_under_ticks [OF holding_state(1) t,
      where E = "service ''pending'' [] (Inr ())" and n = 3] s r
  have "\<exists>order'. activeOrders
          (monitoringTicks (service ''pending'' [] (Inr ())) ''0xorder'' 3 (holding EXECUTED))
          ''0xorder'' = Some order'
        \<and> status order' = EXECUTED \<and> fills order' = fills (sample_order EXECUTED)"
    by blast
  with t show ?thesis by (simp add: sample_order_fields)
qed

subsection \<open>createOrder\<close>

lemma retry_loop_invariant:
  assumes step: "\<And>w. R w (snd (operation w))"
    and wait: "\<And>ms w. R w (pause ms w)"
    and refl: "\<And>w. R w w"
    and trans: "\<And>a b c. R a b \<Longrightarrow> R b c \<Longrightarrow> R a c"
  shows "R w (fst (snd (retry_loop operation pause retries delay i lastError invoked w)))"
proof (induction "retries - i" arbitrary: i lastError invoked w)
  case 0
  then show ?case
    by (subst retry_loop.simps) (simp add: refl)
next
  case (Suc d)
  then have lt: "i < retries" and d: "d = retries - Suc i" by simp_all
  obtain r w' where op: "operation w = (r, w')" by (cases "operation w")
  have s1: "R w w'" using step [of w] op by simp
  show ?case
  proof (cases r)
    case (Inr v)
    then show ?thesis
      using lt op s1 by (subst retry_loop.simps) simp
  next
    case (Inl e)
    let ?w2 = "if i < retries - 1 then pause (delay * 2 ^ i) w' else w'"
    have s2: "R w ?w2"
      using s1 wait [of w' "delay * 2 ^ i"] refl trans by (cases "i < retries - 1") auto
    have "R ?w2 (fst (snd (retry_loop operation pause retries delay (Suc i) (Thrown e) (Suc invoked) ?w2)))"
      using Suc.hyps(1) [OF d] .
    with s2 have "R w (fst (snd (retry_loop operation pause retries delay (Suc i) (Thrown e) (Suc invoked) ?w2)))"
      using trans by blast
    then show ?thesis
      using lt op Inl by (subst retry_loop.simps) simp
  qed
qed

lemma quiet_refl: "quiet m m"
proof -
  have "m = m\<lparr>history := history m @ []\<rparr>" by simp
  then show ?thesis unfolding quiet_def by (intro exI [of _ "[]"]) simp
qed

lemma quiet_trans:
  assumes "quiet a b" and "quiet b c"
  shows "quiet a c"
proof -
  from assms(1) obtain e1 where 1: "b = a\<lparr>history := history a @ e1\<rparr>"
    and p1: "list_all (\<lambda>e. \<not> is_PlaceOrder e) e1" unfolding quiet_def by blast
  from assms(2) obtain e2 where 2: "c = b\<lparr>history := history b @ e2\<rparr>"
    and p2: "list_all (\<lambda>e. \<not> is_PlaceOrder e) e2" unfolding quiet_def by blast
  have "c = a\<lparr>history := history a @ (e1 @ e2)\<rparr>" using 1 2 by simp
  moreover have "list_all (\<lambda>e. \<not> is_PlaceOrder e) (e1 @ e2)" using p1 p2 by simp
  ultimately show ?thesis unfolding quiet_def by blast
qed

lemma quiet_emit: "\<not> is_PlaceOrder e \<Longrightarrow> quiet m (emit e m)"
  unfolding quiet_def emit_def by (intro exI [of _ "[e]"]) simp

lemma quiet_getQuote:
  "quiet m (fst (snd (retry (call_getQuote E params) sleep retries delay m)))"
  unfolding retry_def
  by (rule retry_loop_invariant)
    (simp_all add: call_getQuote_def sleep_def quiet_emit quiet_refl, blast intro: quiet_trans)

lemma retry_first_call:
  assumes "0 < retries"
  shows "quiet (emit (GetQuote (quote_request params)) m)
           (fst (snd (retry (call_getQuote E params) sleep retries delay m)))"
proof -
  let ?m1 = "emit (GetQuote (quote_request params)) m"
  have inv: "\<And>i le inv w. quiet w (fst (snd (retry_loop (call_getQuote E params) sleep retries delay i le inv w)))"
    by (rule retry_loop_invariant)
      (simp_all add: call_getQuote_def sleep_def quiet_emit quiet_refl, blast intro: quiet_trans)
  show ?thesis
  proof (cases "sdk_getQuote E (history m) (quote_request params)")
    case (Inr q)
    then show ?thesis
      using assms unfolding retry_def
      by (subst retry_loop.simps) (simp add: call_getQuote_def quiet_refl)
  next
    case (Inl e)
    let ?w2 = "if 0 < retries - 1 then sleep (delay * 2 ^ 0) ?m1 else ?m1"
    have a: "quiet ?m1 ?w2"
      by (simp add: sleep_def quiet_emit quiet_refl)
    have b: "quiet ?w2 (fst (snd (retry_loop (call_getQuote E params) sleep retries delay (Suc 0) (Thrown e) (Suc 0) ?w2)))"
      by (rule inv)
    have "fst (snd (retry (call_getQuote E params) sleep retries delay m)) =
        fst (snd (retry_loop (call_getQuote E params) sleep retries delay (Suc 0) (Thrown e) (Suc 0) ?w2))"
      using assms Inl unfolding retry_def
      by (subst retry_loop.simps) (simp add: call_getQuote_def)
    then show ?thesis
      using quiet_trans [OF a b] by simp
  qed
qed

lemma check_required_Some:
  "check_required order fs = Some e \<Longrightarrow> \<exists>f. e = MissingRequiredField f"
  by (induction fs) (auto split: if_splits)

lemma validate_new_order_amount:
  assumes "BigInt (quote_amount params) = Some v" and "v \<le> 0"
  shows "\<exists>e. validateOrderParams now (partial_of (new_order params now' g)) = Inl e \<and> is_InvalidOrder e"
proof (cases "check_required (partial_of (new_order params now' g)) required")
  case None
  then have "validateOrderParams now (partial_of (new_order params now' g)) = Inl AmountMustBePositive"
    using assms by (simp add: validateOrderParams_def partial_of_def new_order_def)
  then show ?thesis by simp
next
  case (Some e)
  then obtain f where "e = MissingRequiredField f"
    using check_required_Some by blast
  then show ?thesis
    using Some by (simp add: validateOrderParams_def)
qed

lemma validate_new_order_deadline:
  "validateOrderParams now (partial_of (new_order params now g)) \<noteq> Inl DeadlineMustBeInFuture"
proof (cases "check_required (partial_of (new_order params now g)) required")
  case None
  then show ?thesis
    by (simp add: validateOrderParams_def partial_of_def new_order_def split: option.splits)
next
  case (Some e)
  then obtain f where "e = MissingRequiredField f"
    using check_required_Some by blast
  then show ?thesis
    using Some by (simp add: validateOrderParams_def)
qed

lemma getQuote_quiet:
  assumes "getQuote cfg E params m = (r, m1)"
  shows "quiet m m1"
    and "0 < maxRetries cfg \<Longrightarrow> quiet (emit (GetQuote (quote_request params)) m) m1"
proof -
  obtain r0 w0 n0 where rt: "retry (call_getQuote E params) sleep (maxRetries cfg) 1000 m = (r0, w0, n0)"
    by (cases "retry (call_getQuote E params) sleep (maxRetries cfg) 1000 m")
  then have m1: "m1 = w0"
    using assms by (cases r0) (simp_all add: getQuote_def)
  show "quiet m m1"
    using quiet_getQuote [of m E params "maxRetries cfg" 1000] rt m1 by simp
  show "0 < maxRetries cfg \<Longrightarrow> quiet (emit (GetQuote (quote_request params)) m) m1"
    using retry_first_call [of "maxRetries cfg" params m E 1000] rt m1 by simp
qed

lemma getQuote_rejected:
  assumes "getQuote cfg E params m = (Inl e, m1)"
  shows "e \<noteq> Thrown DeadlineMustBeInFuture"
proof -
  obtain r0 w0 n0 where rt: "retry (call_getQuote E params) sleep (maxRetries cfg) 1000 m = (r0, w0, n0)"
    by (cases "retry (call_getQuote E params) sleep (maxRetries cfg) 1000 m")
  with assms obtain e0 where "e = rethrow e0"
    by (cases r0) (auto simp: getQuote_def)
  then show ?thesis by (cases e0) simp_all
qed

lemma createOrder_with_adapters:
  assumes "adapters m (srcChainId params) = Some a1" and "adapters m (dstChainId params) = Some a2"
    and "getQuote cfg E params m = (r, m1)"
  shows "r = Inl e \<Longrightarrow> createOrder cfg C E params m = (Inl e, m1)"
    and "r = Inr quote \<Longrightarrow>
         generateSecretsAndHashLock C (drawn m1) (preset_secretsCount quote) = (Inr g, d') \<Longrightarrow>
         validateOrderParams (clock E (history m1))
           (partial_of (new_order params (clock E (history m1)) g)) = Inl e' \<Longrightarrow>
         createOrder cfg C E params m = (Inl (Thrown e'), m1\<lparr>drawn := d'\<rparr>)"
    and "r = Inr quote \<Longrightarrow>
         generateSecretsAndHashLock C (drawn m1) (preset_secretsCount quote) = (Inl e', d') \<Longrightarrow>
         createOrder cfg C E params m = (Inl (Thrown e'), m1\<lparr>drawn := d'\<rparr>)"
  using assms by (simp_all add: createOrder_def Let_def)

lemma createOrder_placed:
  assumes "adapters m (srcChainId params) = Some a1" and "adapters m (dstChainId params) = Some a2"
    and "getQuote cfg E params m = (r, m1)" and "r = Inr quote"
    and "generateSecretsAndHashLock C (drawn m1) (preset_secretsCount quote) = (Inr g, d')"
    and "validateOrderParams (clock E (history m1))
           (partial_of (new_order params (clock E (history m1)) g)) = Inr ok"
    and "retry (call_placeOrder E quote (walletAddress params) (gen_hashLock g) (gen_secretHashes g))
           sleep (maxRetries cfg) 1000 (m1\<lparr>drawn := d'\<rparr>) = (r3, m3, n3)"
  shows "fst (createOrder cfg C E params m) =
            (case r3 of Inl e \<Rightarrow> Inl (rethrow e) | Inr placedHash \<Rightarrow> Inr placedHash)"
proof -
  have "createOrder cfg C E params m =
     (case (r3, m3, n3) of
        (Inl e, m3, invoked) \<Rightarrow> (Inl (rethrow e), m3)
      | (Inr placedHash, m3, invoked) \<Rightarrow>
          (Inr placedHash,
           startOrderMonitoring placedHash
             (m3\<lparr>activeOrders :=
                   (activeOrders m3)(placedHash \<mapsto>
                      (new_order params (clock E (history m1)) g)\<lparr>orderHash := placedHash, status := PENDING\<rparr>),
                 orderSecrets := (orderSecrets m3)(placedHash \<mapsto> gen_secrets g)\<rparr>)))"
  proof -
    have h: "history (m1\<lparr>drawn := d'\<rparr>) = history m1" by simp
    show ?thesis
      unfolding createOrder_def Let_def
      by (simp only: assms h option.case sum.case prod.case)
  qed
  then show ?thesis
    by (cases r3) simp_all
qed

lemma quiet_fields:
  assumes "quiet m m'"
  shows "activeOrders m' = activeOrders m" "orderSecrets m' = orderSecrets m"
    "pollingIntervals m' = pollingIntervals m" "liveTimers m' = liveTimers m"
    "filter is_PlaceOrder (history m') = filter is_PlaceOrder (history m)"
    "\<exists>evs. history m' = history m @ evs"
proof -
  from assms obtain evs where m': "m' = m\<lparr>history := history m @ evs\<rparr>"
    and p: "list_all (\<lambda>e. \<not> is_PlaceOrder e) evs" unfolding quiet_def by blast
  have "filter is_PlaceOrder evs = []"
    using p by (induction evs) simp_all
  then show "filter is_PlaceOrder (history m') = filter is_PlaceOrder (history m)"
    by (simp add: m')
  show "activeOrders m' = activeOrders m" "orderSecrets m' = orderSecrets m"
    "pollingIntervals m' = pollingIntervals m" "liveTimers m' = liveTimers m"
    "\<exists>evs. history m' = history m @ evs"
    by (simp_all add: m')
qed

lemma rethrow_not_deadline: "rethrow e \<noteq> Thrown DeadlineMustBeInFuture"
  by (cases e) simp_all

lemma createOrder_never_deadline:
  "fst (createOrder cfg C E params m) \<noteq> Inl (Thrown DeadlineMustBeInFuture)"
proof (cases "adapters m (srcChainId params)")
  case None
  then show ?thesis by (simp add: createOrder_def)
next
  case src: (Some a1)
  show ?thesis
  proof (cases "adapters m (dstChainId params)")
    case None
    then show ?thesis using src by (simp add: createOrder_def)
  next
    case dst: (Some a2)
    obtain r m1 where gq: "getQuote cfg E params m = (r, m1)"
      by (cases "getQuote cfg E params m")
    show ?thesis
    proof (cases r)
      case (Inl e)
      then have "createOrder cfg C E params m = (Inl e, m1)"
        using createOrder_with_adapters(1) [OF src dst gq] by simp
      then show ?thesis
        using getQuote_rejected [of cfg E params m e m1] gq Inl by simp
    next
      case (Inr quote)
      obtain r2 d' where gen0: "generateSecretsAndHashLock C (drawn m1) (preset_secretsCount quote) = (r2, d')"
        by (cases "generateSecretsAndHashLock C (drawn m1) (preset_secretsCount quote)")
      let ?now = "clock E (history m1)"
      show ?thesis
      proof (cases r2)
        case rejected: (Inl e2)
        then have "e2 = HashLockAssertion"
          using gen0
          by (auto simp: generateSecretsAndHashLock_def HashLock_forMultipleFills_def Let_def
              split: if_splits)
        moreover have "createOrder cfg C E params m = (Inl (Thrown e2), m1\<lparr>drawn := d'\<rparr>)"
          using createOrder_with_adapters(3) [OF src dst gq Inr] gen0 rejected by simp
        ultimately show ?thesis by simp
      next
        case generated: (Inr g)
        with gen0 have gen: "generateSecretsAndHashLock C (drawn m1) (preset_secretsCount quote) = (Inr g, d')"
          by simp
      show ?thesis
      proof (cases "validateOrderParams ?now (partial_of (new_order params ?now g))")
        case (Inl e')
        then have "createOrder cfg C E params m = (Inl (Thrown e'), m1\<lparr>drawn := d'\<rparr>)"
          using createOrder_with_adapters(2) [OF src dst gq Inr gen] by simp
        then show ?thesis
          using validate_new_order_deadline [of ?now params g] Inl by auto
      next
        case ok: (Inr b)
        obtain r3 m3 n3 where pl: "retry
             (call_placeOrder E quote (walletAddress params) (gen_hashLock g) (gen_secretHashes g))
             sleep (maxRetries cfg) 1000 (m1\<lparr>drawn := d'\<rparr>) = (r3, m3, n3)"
          by (cases "retry
             (call_placeOrder E quote (walletAddress params) (gen_hashLock g) (gen_secretHashes g))
             sleep (maxRetries cfg) 1000 (m1\<lparr>drawn := d'\<rparr>)")
        have "fst (createOrder cfg C E params m) =
            (case r3 of Inl e \<Rightarrow> Inl (rethrow e) | Inr placedHash \<Rightarrow> Inr placedHash)"
          using createOrder_placed [OF src dst gq Inr gen ok pl] .
        then show ?thesis
          by (cases r3) (simp_all add: rethrow_not_deadline)
      qed
      qed
    qed
  qed
qed

lemma createOrder_rejects:
  assumes src: "adapters m (srcChainId params) = Some a1"
    and dst: "adapters m (dstChainId params) = Some a2"
    and amt: "BigInt (quote_amount params) = Some v" "v \<le> 0"
    and gq: "getQuote cfg E params m = (r, m1)"
  obtains e d' where "createOrder cfg C E params m = (Inl e, m1\<lparr>drawn := d'\<rparr>)"
    and "\<forall>quote. r = Inr quote \<longrightarrow>
           preset_secretsCount quote = 1 \<or> 2 < preset_secretsCount quote \<longrightarrow>
           (\<exists>e'. e = Thrown e' \<and> is_InvalidOrder e')"
    and "\<forall>quote. r = Inr quote \<longrightarrow>
           preset_secretsCount quote = 0 \<or> preset_secretsCount quote = 2 \<longrightarrow>
           e = Thrown HashLockAssertion"
proof (cases r)
  case (Inl e)
  have same: "m1\<lparr>drawn := drawn m1\<rparr> = m1" by simp
  have "createOrder cfg C E params m = (Inl e, m1\<lparr>drawn := drawn m1\<rparr>)"
    using createOrder_with_adapters(1) [OF src dst gq Inl] by (simp only: same)
  then show thesis
    using Inl by (intro that [of e "drawn m1"]) simp_all
next
  case (Inr quote)
  let ?n = "preset_secretsCount quote"
  show thesis
  proof (cases "?n = 0 \<or> ?n = 2")
    case True
    then have gen: "generateSecretsAndHashLock C (drawn m1) ?n = (Inl HashLockAssertion, drawn m1 + ?n)"
      by (rule generate_rejected)
    have "createOrder cfg C E params m = (Inl (Thrown HashLockAssertion), m1\<lparr>drawn := drawn m1 + ?n\<rparr>)"
      by (rule createOrder_with_adapters(3) [OF src dst gq Inr gen])
    then show thesis
      using Inr True by (intro that [of "Thrown HashLockAssertion" "drawn m1 + ?n"]) auto
  next
    case False
    then have ok: "?n = 1 \<or> 2 < ?n" by arith
    obtain g where gen: "generateSecretsAndHashLock C (drawn m1) ?n = (Inr g, drawn m1 + ?n)"
    proof (cases "?n = 1")
      case True
      then show thesis using generate_single [of C "drawn m1"] that by simp
    next
      case False
      with ok have "2 < ?n" by simp
      from generate_multiple [OF this, of C "drawn m1"] show thesis using that by simp
    qed
    from validate_new_order_amount [OF amt] obtain e'
      where v: "validateOrderParams (clock E (history m1))
             (partial_of (new_order params (clock E (history m1)) g)) = Inl e'"
        and inv: "is_InvalidOrder e'"
      by blast
    have "createOrder cfg C E params m = (Inl (Thrown e'), m1\<lparr>drawn := drawn m1 + ?n\<rparr>)"
      by (rule createOrder_with_adapters(2) [OF src dst gq Inr gen v])
    then show thesis
      using inv Inr False by (intro that [of "Thrown e'" "drawn m1 + ?n"]) auto
  qed
qed

lemma BigInt_sample_zero: "BigInt (quote_amount (sample_params ''0'')) = Some 0"
  by code_simp

lemma sample_quote_obtained:
  "\<exists>quote. fst (getQuote sample_config (service ''pending'' [] (Inr ())) (sample_params ''0'') fresh_manager)
             = Inr quote \<and> preset_secretsCount quote = 1"
proof -
  have "fst (getQuote sample_config (service ''pending'' [] (Inr ())) (sample_params ''0'') fresh_manager)
          = Inr \<lparr> preset_secretsCount = 1, quote_data = ''q'' \<rparr>"
    by code_simp
  then show ?thesis by simp
qed

lemma sample_quote_two:
  "\<exists>quote. fst (getQuote sample_config (service_quoting 2) (sample_params ''0'') fresh_manager)
             = Inr quote \<and> preset_secretsCount quote = 2"
proof -
  have "fst (getQuote sample_config (service_quoting 2) (sample_params ''0'') fresh_manager)
          = Inr \<lparr> preset_secretsCount = 2, quote_data = ''q'' \<rparr>"
    by code_simp
  then show ?thesis by simp
qed

text \<open>
  Claim C2, as stated, fails: \<open>createOrder\<close> with the amount \<open>"0"\<close>, on a manager connected
  to both chains and with no event in its history, fails with "Amount must be positive"
  after the Settlement Service has received one call, the quote request.
\<close>

theorem createOrder_zero_amount_counterexample:
  "history fresh_manager = []
   \<and> fst (createOrder sample_config sample_crypto (service ''pending'' [] (Inr ())) (sample_params ''0'') fresh_manager)
       = Inl (Thrown AmountMustBePositive)
   \<and> map is_sdk_call
        (history (snd (createOrder sample_config sample_crypto (service ''pending'' [] (Inr ())) (sample_params ''0'') fresh_manager)))
       = [True]
   \<and> map is_GetQuote
        (history (snd (createOrder sample_config sample_crypto (service ''pending'' [] (Inr ())) (sample_params ''0'') fresh_manager)))
       = [True]"
  by code_simp

text \<open>
  Claim C2, amended. \<open>createOrder\<close> takes no deadline: it sets the deadline one hour
  after the current time, and never fails with "Deadline must be in the future". With
  adapters for both chains and an amount that \<open>BigInt\<close> reads as zero or negative (such as
  \<open>"0"\<close>), every call fails, and the quote is requested before anything is checked (for
  \<open>maxRetries \<ge> 1\<close> the quote request is the first event of the call). When the quote
  is obtained, the failure depends on the number of secrets of its preset: for one secret,
  or more than two, the secrets are generated and the failure is an \<open>InvalidOrder\<close> error
  of \<open>validateOrderParams\<close>; for two secrets, or none, the failure is the assertion of
  \<open>HashLock.forMultipleFills\<close>, raised before the order is validated. In every case the
  call never places an order and leaves the stored orders, the secrets and the timers as
  they were.
\<close>

theorem createOrder_non_positive_amount:
  "fst (createOrder cfg C E params m) \<noteq> Inl (Thrown DeadlineMustBeInFuture)
   \<and> (adapters m (srcChainId params) \<noteq> None \<and> adapters m (dstChainId params) \<noteq> None
       \<and> (\<exists>v. BigInt (quote_amount params) = Some v \<and> v \<le> 0) \<longrightarrow>
         (\<exists>e. fst (createOrder cfg C E params m) = Inl e)
       \<and> (\<forall>quote m1. getQuote cfg E params m = (Inr quote, m1) \<longrightarrow>
            (preset_secretsCount quote = 1 \<or> 2 < preset_secretsCount quote \<longrightarrow>
               (\<exists>e. fst (createOrder cfg C E params m) = Inl (Thrown e) \<and> is_InvalidOrder e))
            \<and> (preset_secretsCount quote = 0 \<or> preset_secretsCount quote = 2 \<longrightarrow>
                 fst (createOrder cfg C E params m) = Inl (Thrown HashLockAssertion)))
       \<and> (1 \<le> maxRetries cfg \<longrightarrow>
            (\<exists>evs. history (snd (createOrder cfg C E params m)) =
                      history m @ GetQuote (quote_request params) # evs))
       \<and> filter is_PlaceOrder (history (snd (createOrder cfg C E params m)))
            = filter is_PlaceOrder (history m)
       \<and> activeOrders (snd (createOrder cfg C E params m)) = activeOrders m
       \<and> orderSecrets (snd (createOrder cfg C E params m)) = orderSecrets m
       \<and> pollingIntervals (snd (createOrder cfg C E params m)) = pollingIntervals m
       \<and> liveTimers (snd (createOrder cfg C E params m)) = liveTimers m)"
proof (intro conjI impI)
  show "fst (createOrder cfg C E params m) \<noteq> Inl (Thrown DeadlineMustBeInFuture)"
    by (rule createOrder_never_deadline)
next
  assume hyp: "adapters m (srcChainId params) \<noteq> None \<and> adapters m (dstChainId params) \<noteq> None
       \<and> (\<exists>v. BigInt (quote_amount params) = Some v \<and> v \<le> 0)"
  then obtain a1 a2 v where src: "adapters m (srcChainId params) = Some a1"
    and dst: "adapters m (dstChainId params) = Some a2"
    and amt: "BigInt (quote_amount params) = Some v" "v \<le> 0"
    by auto
  obtain r m1 where gq: "getQuote cfg E params m = (r, m1)"
    by (cases "getQuote cfg E params m")
  note q = getQuote_quiet [OF gq]
  obtain e d' where co: "createOrder cfg C E params m = (Inl e, m1\<lparr>drawn := d'\<rparr>)"
    and io0: "\<forall>quote. r = Inr quote \<longrightarrow>
               preset_secretsCount quote = 1 \<or> 2 < preset_secretsCount quote \<longrightarrow>
               (\<exists>e'. e = Thrown e' \<and> is_InvalidOrder e')"
    and ha0: "\<forall>quote. r = Inr quote \<longrightarrow>
               preset_secretsCount quote = 0 \<or> preset_secretsCount quote = 2 \<longrightarrow>
               e = Thrown HashLockAssertion"
    by (rule createOrder_rejects [OF src dst amt gq, of C]) (rule that)
  note io = io0 [rule_format] and ha = ha0 [rule_format]
  have res: "fst (createOrder cfg C E params m) = Inl e"
    and st: "snd (createOrder cfg C E params m) = m1\<lparr>drawn := d'\<rparr>"
    by (simp_all add: co)
  show "\<exists>e. fst (createOrder cfg C E params m) = Inl e"
    using res by simp
  show "\<forall>quote m1. getQuote cfg E params m = (Inr quote, m1) \<longrightarrow>
            (preset_secretsCount quote = 1 \<or> 2 < preset_secretsCount quote \<longrightarrow>
               (\<exists>e. fst (createOrder cfg C E params m) = Inl (Thrown e) \<and> is_InvalidOrder e))
            \<and> (preset_secretsCount quote = 0 \<or> preset_secretsCount quote = 2 \<longrightarrow>
                 fst (createOrder cfg C E params m) = Inl (Thrown HashLockAssertion))"
  proof (intro allI impI conjI)
    fix quote m1'
    assume "getQuote cfg E params m = (Inr quote, m1')"
    with gq have r: "r = Inr quote" by simp
    {
      assume "preset_secretsCount quote = 1 \<or> 2 < preset_secretsCount quote"
      from io [OF r this]
      show "\<exists>e. fst (createOrder cfg C E params m) = Inl (Thrown e) \<and> is_InvalidOrder e"
        by (simp add: res)
    }
    {
      assume "preset_secretsCount quote = 0 \<or> preset_secretsCount quote = 2"
      from ha [OF r this]
      show "fst (createOrder cfg C E params m) = Inl (Thrown HashLockAssertion)"
        by (simp add: res)
    }
  qed
  show "filter is_PlaceOrder (history (snd (createOrder cfg C E params m)))
            = filter is_PlaceOrder (history m)"
    using quiet_fields(5) [OF q(1)] by (simp add: st)
  show "activeOrders (snd (createOrder cfg C E params m)) = activeOrders m"
    using quiet_fields(1) [OF q(1)] by (simp add: st)
  show "orderSecrets (snd (createOrder cfg C E params m)) = orderSecrets m"
    using quiet_fields(2) [OF q(1)] by (simp add: st)
  show "pollingIntervals (snd (createOrder cfg C E params m)) = pollingIntervals m"
    using quiet_fields(3) [OF q(1)] by (simp add: st)
  show "liveTimers (snd (createOrder cfg C E params m)) = liveTimers m"
    using quiet_fields(4) [OF q(1)] by (simp add: st)
  assume "1 \<le> maxRetries cfg"
  then have "quiet (emit (GetQuote (quote_request params)) m) m1"
    using q(2) by simp
  from quiet_fields(6) [OF this] obtain evs where
    "history m1 = history m @ [GetQuote (quote_request params)] @ evs"
    by auto
  then show "\<exists>evs. history (snd (createOrder cfg C E params m)) =
                      history m @ GetQuote (quote_request params) # evs"
    by (simp add: st)
qed

text \<open>
  The call with the amount \<open>"0"\<close> on the sample manager: with a quote of one secret the
  order is refused by the validation, with a quote of two secrets by the hash lock.
\<close>

theorem createOrder_non_positive_amount_witness:
  "(\<exists>e. fst (createOrder sample_config sample_crypto (service ''pending'' [] (Inr ())) (sample_params ''0'') fresh_manager)
          = Inl (Thrown e) \<and> is_InvalidOrder e)
   \<and> (\<exists>evs. history (snd (createOrder sample_config sample_crypto (service ''pending'' [] (Inr ())) (sample_params ''0'') fresh_manager))
          = GetQuote (quote_request (sample_params ''0'')) # evs)
   \<and> filter is_PlaceOrder
        (history (snd (createOrder sample_config sample_crypto (service ''pending'' [] (Inr ())) (sample_params ''0'') fresh_manager)))
       = []
   \<and> activeOrders (snd (createOrder sample_config sample_crypto (service ''pending'' [] (Inr ())) (sample_params ''0'') fresh_manager))
       = activeOrders fresh_manager
   \<and> fst (createOrder sample_config sample_crypto (service_quoting 2) (sample_params ''0'') fresh_manager)
       = Inl (Thrown HashLockAssertion)
   \<and> activeOrders (snd (createOrder sample_config sample_crypto (service_quoting 2) (sample_params ''0'') fresh_manager))
       = activeOrders fresh_manager"
proof -
  have connected: "adapters fresh_manager (srcChainId (sample_params ''0'')) \<noteq> None
      \<and> adapters fresh_manager (dstChainId (sample_params ''0'')) \<noteq> None
      \<and> (\<exists>v. BigInt (quote_amount (sample_params ''0'')) = Some v \<and> v \<le> 0)"
    by (simp add: BigInt_sample_zero)
      (simp add: fresh_manager_def sample_params_def sample_chains_distinct)
  obtain quote m1 where one:
    "getQuote sample_config (service ''pending'' [] (Inr ())) (sample_params ''0'') fresh_manager = (Inr quote, m1)"
    "preset_secretsCount quote = 1"
    using sample_quote_obtained by (metis prod.collapse)
  obtain quote2 m2 where two:
    "getQuote sample_config (service_quoting 2) (sample_params ''0'') fresh_manager = (Inr quote2, m2)"
    "preset_secretsCount quote2 = 2"
    using sample_quote_two by (metis prod.collapse)
  have more: "1 \<le> maxRetries sample_config" "history fresh_manager = []"
    by (simp_all add: sample_config_def fresh_manager_def)
  have first: "(\<exists>e. fst (createOrder sample_config sample_crypto (service ''pending'' [] (Inr ())) (sample_params ''0'') fresh_manager)
          = Inl (Thrown e) \<and> is_InvalidOrder e)
   \<and> (\<exists>evs. history (snd (createOrder sample_config sample_crypto (service ''pending'' [] (Inr ())) (sample_params ''0'') fresh_manager))
          = GetQuote (quote_request (sample_params ''0'')) # evs)
   \<and> filter is_PlaceOrder
        (history (snd (createOrder sample_config sample_crypto (service ''pending'' [] (Inr ())) (sample_params ''0'') fresh_manager)))
       = []
   \<and> activeOrders (snd (createOrder sample_config sample_crypto (service ''pending'' [] (Inr ())) (sample_params ''0'') fresh_manager))
       = activeOrders fresh_manager"
    using createOrder_non_positive_amount
      [where cfg = sample_config and C = sample_crypto and E = "(service ''pending'' [] (Inr ()))"
        and params = "sample_params ''0''" and m = fresh_manager]
      connected one more
    by auto
  have second: "fst (createOrder sample_config sample_crypto (service_quoting 2) (sample_params ''0'') fresh_manager)
       = Inl (Thrown HashLockAssertion)
   \<and> activeOrders (snd (createOrder sample_config sample_crypto (service_quoting 2) (sample_params ''0'') fresh_manager))
       = activeOrders fresh_manager"
    using createOrder_non_positive_amount
      [where cfg = sample_config and C = sample_crypto and E = "service_quoting 2"
        and params = "sample_params ''0''" and m = fresh_manager]
      connected two
    by auto
  from first second show ?thesis by (intro conjI) (elim conjE, assumption)+
qed

end
